theory Spec2Isabelle
  imports Complex_Main "HOL-Library.Word"
begin

section \<open>The tiled surface of lib/tiledsurface.hpp\<close>

text \<open>
  A shallow embedding of the C++ half of the class \<open>TiledSurface\<close> and of
  \<open>composite_tile_over_rgb8\<close>.

  Conventions of the embedding.
  \<^item> C \<open>int\<close> is \<open>int\<close>, kept within 32 bits where the code computes it from a dab: a
    product or sum that leaves the range wraps (\<open>int32\<close>), and the conversion of a
    floating-point value that does not fit gives \<open>- 2 ^ 31\<close> (\<open>to_int\<close>). Both are
    undefined in C; the model takes what the usual compilers for x86 produce.
  \<^item> \<open>uint16_t\<close>, \<open>uint32_t\<close> and \<open>uint8_t\<close> are words; their arithmetic wraps.
  \<^item> A \<open>float\<close> or \<open>double\<close> value is a \<open>real\<close>, and every floating-point operation
    is the exact operation followed by one rounding to the type C gives the operation:
    \<open>to_float\<close> (IEEE 754 binary32) where both operands are \<open>float\<close> or integers, and
    \<open>to_double\<close> (binary64) where one operand is a \<open>double\<close>, as for the constants
    \<open>0.5\<close>, \<open>0.1\<close> and \<open>1.0\<close> and for the results of \<open>floor\<close> and \<open>ceil\<close>. An assignment
    of a \<open>double\<close> to a \<open>float\<close> variable rounds once more. Rounding is to nearest,
    ties to even, with gradual underflow. The arguments of a call are finite numbers.
  \<^item> Rounding has no upper end of the exponents: a result of type \<open>float\<close> of which
    \<open>finite_float\<close> is false stands for the infinity of its sign. Where the code
    converts such a result to \<open>int\<close> or compares it with a finite number, the model does
    the same with the number that stands for it. Where an infinity is an operand,
    in the relative distance of a pixel, the model tells the cases apart: \<open>pixel_rr\<close>
    answers \<open>None\<close> for a distance that is an infinity or not a number.
  \<^item> A pointer to a tile buffer is an address into an explicit heap; \<open>NULL\<close> is \<open>None\<close>.
    A buffer is indexed by the C index, so \<open>rgba_p[idx]\<close> is \<open>heap w rgba_p idx\<close>.
  \<^item> The Python half of the class (\<open>tiledsurface.py\<close>) is a collaborator with a state of
    its own, which does not call back into the object while it serves a call. Every call
    into it is appended to a trace. \<open>notify_observers\<close> is called on \<open>self\<close> and is handed
    the C++ object as it stands at the moment of the call, so that what the observers
    can see of the object is part of the model.
  \<^item> \<open>assert\<close> aborts the program, and so does \<open>Py_DECREF\<close> of a null pointer; an
    aborted run is \<open>Inl\<close> of the reason and of the state reached at that moment.
  \<^item> A tile buffer has \<open>TILE_SIZE * TILE_SIZE * 4\<close> elements. An access at an index
    outside of it is undefined in C; in the model it ends the run with \<open>OutOfBounds\<close>.
\<close>

subsection \<open>Data\<close>

type_synonym addr = nat
type_synonym buffer = "int \<Rightarrow> 16 word"

definition TILE_SIZE :: int where
  "TILE_SIZE = 64"

definition TILE_MEMORY_SIZE :: int where
  "TILE_MEMORY_SIZE = 8"

text \<open>
  Modelled from the spec: the struct \<open>Rect\<close> is declared in a helper file of the
  repository that is not part of the sources at hand. The spec (3) gives it the fields
  \<open>x, y, w, h\<close> in pixel space; the code reads and writes them as \<open>int\<close>.
\<close>

record Rect =
  rect_x :: int
  rect_y :: int
  rect_w :: int
  rect_h :: int

record TileMemory =
  tm_tx :: int
  tm_ty :: int
  tm_rgba_p :: addr

record TiledSurface =
  dirty_bbox :: Rect
  atomic :: int
  tileMemory :: "int \<Rightarrow> TileMemory"
  tileMemoryValid :: int
  tileMemoryWrite :: int

datatype call = GetTileMemory int int bool | NotifyObservers int int int int

record 'p world =
  heap :: "addr \<Rightarrow> buffer"
  py_state :: 'p
  calls :: "call list"

text \<open>
  The two methods of the Python half that the C++ code calls. \<open>py_get_tile_memory\<close>
  answers the address of the tile's data or \<open>None\<close> for a raised exception;
  \<open>py_notify_observers\<close> answers whether an object came back (\<open>False\<close>: exception).
  Its second argument is the object on which the method is called, in the state it has
  when the call is made.
\<close>

record 'p Python =
  py_get_tile_memory :: "'p \<Rightarrow> int \<Rightarrow> int \<Rightarrow> bool \<Rightarrow> addr option \<times> 'p"
  py_notify_observers :: "'p \<Rightarrow> TiledSurface \<Rightarrow> int \<Rightarrow> int \<Rightarrow> int \<Rightarrow> int \<Rightarrow> bool \<times> 'p"

datatype error = AssertionFailed | NullDereference | OutOfBounds

type_synonym 'p state = "TiledSurface \<times> 'p world"
type_synonym ('a, 'p) result = "(error \<times> 'p state) + ('a \<times> 'p state)"

text \<open>The state a run ends in, returned or aborted.\<close>

definition final_state :: "('a, 'p) result \<Rightarrow> 'p state" where
  "final_state r = (case r of Inl (e, sw) \<Rightarrow> sw | Inr (v, sw) \<Rightarrow> sw)"

subsection \<open>Construction and batches\<close>

text \<open>
  The constructor sets four fields and leaves the rest of the object as the allocation
  found it; \<open>garbage\<close> is that uninitialised object.
\<close>

definition TiledSurface_new :: "TiledSurface \<Rightarrow> TiledSurface" where
  "TiledSurface_new garbage =
     garbage\<lparr>atomic := 0,
             dirty_bbox := (dirty_bbox garbage)\<lparr>rect_w := 0\<rparr>,
             tileMemoryValid := 0,
             tileMemoryWrite := 0\<rparr>"

definition begin_atomic :: "'p state \<Rightarrow> (unit, 'p) result" where
  "begin_atomic sw =
     (case sw of (s, w) \<Rightarrow>
        if atomic s = 0 \<and> \<not> (rect_w (dirty_bbox s) = 0) then Inl (AssertionFailed, sw)
        else if atomic s = 0 \<and> \<not> (tileMemoryValid s = 0) then Inl (AssertionFailed, sw)
        else Inr ((), s\<lparr>atomic := atomic s + 1\<rparr>, w))"

definition end_atomic :: "'p Python \<Rightarrow> 'p state \<Rightarrow> (unit, 'p) result" where
  "end_atomic P sw =
     (case sw of (s, w) \<Rightarrow>
        if \<not> (atomic s > 0) then Inl (AssertionFailed, sw)
        else
          let s1 = s\<lparr>atomic := atomic s - 1\<rparr> in
          if atomic s1 = 0 then
            let s2 = s1\<lparr>tileMemoryValid := 0, tileMemoryWrite := 0\<rparr>;
                bbox = dirty_bbox s2;
                s3 = s2\<lparr>dirty_bbox := (dirty_bbox s2)\<lparr>rect_w := 0\<rparr>\<rparr>
            in
              if rect_w bbox > 0 then
                (case py_notify_observers P (py_state w) s3
                        (rect_x bbox) (rect_y bbox) (rect_w bbox) (rect_h bbox) of
                   (res, p') \<Rightarrow>
                     let w' = w\<lparr>py_state := p',
                                calls := calls w @
                                  [NotifyObservers (rect_x bbox) (rect_y bbox)
                                     (rect_w bbox) (rect_h bbox)]\<rparr>
                     in if res then Inr ((), s3, w') else Inl (NullDereference, s3, w'))
              else Inr ((), s3, w)
          else Inr ((), s1, w))"






subsection \<open>The tile pointer cache\<close>

text \<open>The scan of the valid entries, in index order; the first match wins.\<close>

fun scan_tileMemory :: "(int \<Rightarrow> TileMemory) \<Rightarrow> int list \<Rightarrow> int \<Rightarrow> int \<Rightarrow> addr option" where
  "scan_tileMemory tm [] tx ty = None"
| "scan_tileMemory tm (i # rest) tx ty =
     (if tm_tx (tm i) = tx \<and> tm_ty (tm i) = ty then Some (tm_rgba_p (tm i))
      else scan_tileMemory tm rest tx ty)"

definition get_tile_memory ::
  "'p Python \<Rightarrow> int \<Rightarrow> int \<Rightarrow> bool \<Rightarrow> 'p state \<Rightarrow> addr option \<times> 'p state" where
  "get_tile_memory P tx ty readonly sw =
     (case sw of (s, w) \<Rightarrow>
        (case scan_tileMemory (tileMemory s) [0 .. tileMemoryValid s - 1] tx ty of
           Some p \<Rightarrow> (Some p, s, w)
         | None \<Rightarrow>
             (case py_get_tile_memory P (py_state w) tx ty readonly of
                (rgba, p') \<Rightarrow>
                  let w' = w\<lparr>py_state := p', calls := calls w @ [GetTileMemory tx ty readonly]\<rparr> in
                  (case rgba of
                     None \<Rightarrow> (None, s, w')
                   | Some rgba_p \<Rightarrow>
                       if \<not> readonly then
                         let s1 = (if tileMemoryValid s < TILE_MEMORY_SIZE
                                   then s\<lparr>tileMemoryValid := tileMemoryValid s + 1\<rparr> else s);
                             s2 = s1\<lparr>tileMemory := (tileMemory s1)
                                    (tileMemoryWrite s1 :=
                                       \<lparr>tm_tx = tx, tm_ty = ty, tm_rgba_p = rgba_p\<rparr>)\<rparr>;
                             s3 = s2\<lparr>tileMemoryWrite :=
                                       (tileMemoryWrite s2 + 1) mod TILE_MEMORY_SIZE\<rparr>
                         in (Some rgba_p, s3, w')
                       else (Some rgba_p, s, w')))))"

text \<open>A run of write-mode fetches, one after the other, with the pointer each returned.\<close>

fun fetch_all ::
  "'p Python \<Rightarrow> (int \<times> int) list \<Rightarrow> 'p state \<Rightarrow> addr option list \<times> 'p state" where
  "fetch_all P [] sw = ([], sw)"
| "fetch_all P (t # ts) sw =
     (case get_tile_memory P (fst t) (snd t) False sw of
        (r, sw') \<Rightarrow> (case fetch_all P ts sw' of (rs, sw'') \<Rightarrow> (r # rs, sw'')))"

subsection \<open>Machine arithmetic\<close>

text \<open>
  Rounding to the nearest integer, ties to the even one, and rounding of a real number to
  the nearest binary floating-point number with \<open>p\<close> significant bits whose last bit
  has an exponent of at least \<open>emin\<close>.
\<close>

definition round_even :: "real \<Rightarrow> int" where
  "round_even x =
     (let n = \<lfloor>x\<rfloor>; r = x - real_of_int n
      in if r < 1 / 2 then n else if 1 / 2 < r then n + 1 else if even n then n else n + 1)"

definition fp_round :: "nat \<Rightarrow> int \<Rightarrow> real \<Rightarrow> real" where
  "fp_round p emin x =
     (if x = 0 then 0
      else
        let e = max (\<lfloor>log 2 \<bar>x\<bar>\<rfloor> - (int p - 1)) emin
        in real_of_int (round_even (x / 2 powr real_of_int e)) * 2 powr real_of_int e)"

text \<open>The result of an operation in \<open>float\<close> and in \<open>double\<close>.\<close>

definition to_float :: "real \<Rightarrow> real" where
  "to_float = fp_round 24 (- 149)"

definition to_double :: "real \<Rightarrow> real" where
  "to_double = fp_round 53 (- 1074)"

text \<open>
  The result of an operation in \<open>float\<close> is finite, not an overflow to an infinity, when
  its magnitude after rounding is below \<open>2\<^sup>1\<^sup>2\<^sup>8\<close>.
\<close>

definition finite_float :: "real \<Rightarrow> bool" where
  "finite_float x \<longleftrightarrow> \<bar>x\<bar> < 2 ^ 128"

text \<open>Half of the smallest positive \<open>float\<close>.\<close>

definition tiny :: real where
  "tiny = 1 / 2 ^ 150"

text \<open>
  Conversion of a floating-point value to an integer type drops the fraction. The
  value of a conversion that does not fit is undefined in C; the model wraps it for
  \<open>uint32_t\<close> and gives \<open>- 2 ^ 31\<close> for \<open>int\<close>. Arithmetic in \<open>int\<close> wraps.
\<close>

definition truncate_real :: "real \<Rightarrow> int" where
  "truncate_real r = (if 0 \<le> r then \<lfloor>r\<rfloor> else \<lceil>r\<rceil>)"

definition to_uint32 :: "real \<Rightarrow> 32 word" where
  "to_uint32 r = word_of_int (truncate_real r)"

definition to_int :: "real \<Rightarrow> int" where
  "to_int r =
     (if - (2 ^ 31) \<le> truncate_real r \<and> truncate_real r < 2 ^ 31 then truncate_real r
      else - (2 ^ 31))"

definition int32 :: "int \<Rightarrow> int" where
  "int32 k = (k + 2 ^ 31) mod 2 ^ 32 - 2 ^ 31"

subsection \<open>The dirty rectangle\<close>

text \<open>
  Modelled from the spec: \<open>ExpandRectToIncludePoint\<close> is declared in a helper file of
  the repository that is not part of the sources at hand. The spec (4.3) says that it
  grows the box to include the point, and (3) that \<open>w == 0\<close> denotes the empty box. The
  model grows the box by no more than the point needs.
\<close>

definition ExpandRectToIncludePoint :: "Rect \<Rightarrow> int \<Rightarrow> int \<Rightarrow> Rect" where
  "ExpandRectToIncludePoint r x y =
     (if rect_w r = 0 then \<lparr>rect_x = x, rect_y = y, rect_w = 1, rect_h = 1\<rparr>
      else
        let x0 = min (rect_x r) x;
            y0 = min (rect_y r) y;
            x1 = max (rect_x r + rect_w r - 1) x;
            y1 = max (rect_y r + rect_h r - 1) y
        in \<lparr>rect_x = x0, rect_y = y0, rect_w = x1 - x0 + 1, rect_h = y1 - y0 + 1\<rparr>)"

definition rect_contains :: "Rect \<Rightarrow> int \<Rightarrow> int \<Rightarrow> bool" where
  "rect_contains r px py \<longleftrightarrow>
     rect_x r \<le> px \<and> px < rect_x r + rect_w r \<and> rect_y r \<le> py \<and> py < rect_y r + rect_h r"

subsection \<open>Tiles and pixels under a dab\<close>

text \<open>The arguments of \<open>draw_dab\<close>, in the order of its parameter list.\<close>

record Dab =
  dab_x :: real
  dab_y :: real
  radius :: real
  color_r :: real
  color_g :: real
  color_b :: real
  opaque :: real
  hardness :: real
  alpha_eraser :: real

text \<open>The tiles of the two nested loops over \<open>ty\<close> and \<open>tx\<close>, in the order visited.\<close>

definition tile_range :: "real \<Rightarrow> real \<Rightarrow> real \<Rightarrow> (int \<times> int) list" where
  "tile_range x y r_fringe =
     (let tx1 = to_int (real_of_int
                  \<lfloor>to_double (real_of_int \<lfloor>to_float (x - r_fringe)\<rfloor> / real_of_int TILE_SIZE)\<rfloor>);
          tx2 = to_int (real_of_int
                  \<lfloor>to_double (real_of_int \<lfloor>to_float (x + r_fringe)\<rfloor> / real_of_int TILE_SIZE)\<rfloor>);
          ty1 = to_int (real_of_int
                  \<lfloor>to_double (real_of_int \<lfloor>to_float (y - r_fringe)\<rfloor> / real_of_int TILE_SIZE)\<rfloor>);
          ty2 = to_int (real_of_int
                  \<lfloor>to_double (real_of_int \<lfloor>to_float (y + r_fringe)\<rfloor> / real_of_int TILE_SIZE)\<rfloor>)
      in concat (map (\<lambda>ty. map (\<lambda>tx. (tx, ty)) [tx1 .. tx2]) [ty1 .. ty2]))"

text \<open>The pixel rectangle \<open>(x0, y0, x1, y1)\<close> of one tile, after the four clamps.\<close>

definition clip_rect :: "real \<Rightarrow> real \<Rightarrow> real \<Rightarrow> int \<times> int \<times> int \<times> int" where
  "clip_rect xc yc r_fringe =
     (let x0 = to_int (real_of_int \<lfloor>to_float (xc - r_fringe)\<rfloor>);
          y0 = to_int (real_of_int \<lfloor>to_float (yc - r_fringe)\<rfloor>);
          x1 = to_int (real_of_int \<lceil>to_float (xc + r_fringe)\<rceil>);
          y1 = to_int (real_of_int \<lceil>to_float (yc + r_fringe)\<rceil>);
          x0 = (if x0 < 0 then 0 else x0);
          y0 = (if y0 < 0 then 0 else y0);
          x1 = (if x1 > TILE_SIZE - 1 then TILE_SIZE - 1 else x1);
          y1 = (if y1 > TILE_SIZE - 1 then TILE_SIZE - 1 else y1)
      in (x0, y0, x1, y1))"

definition pixel_idx :: "int \<Rightarrow> int \<Rightarrow> int" where
  "pixel_idx yp xp = (yp * TILE_SIZE + xp) * 4"

text \<open>The four elements \<open>idx\<close> to \<open>idx + 3\<close> lie in the tile buffer.\<close>

definition in_tile :: "int \<Rightarrow> bool" where
  "in_tile idx \<longleftrightarrow> 0 \<le> idx \<and> idx + 3 < TILE_SIZE * TILE_SIZE * 4"

text \<open>The falloff of the opacity with the squared relative distance \<open>rr\<close>.\<close>

definition dab_opa :: "real \<Rightarrow> real \<Rightarrow> real \<Rightarrow> real" where
  "dab_opa opq hrd rr =
     (if hrd < 1 then
        (if rr < hrd then to_float (opq * to_float (to_float (rr + 1) - to_float (rr / hrd)))
         else to_float (opq * to_float (to_float (hrd / to_float (hrd - 1)) * to_float (rr - 1))))
      else opq)"

text \<open>
  The squared relative distance of the pixel in column \<open>xp\<close> from the centre of the dab;
  \<open>yy\<close> is the squared distance of its row, \<open>rad\<close> the radius. The answer is \<open>None\<close> when
  the distance is an infinity or not a number:
  \<^item> \<open>radius * radius\<close> is 0, so that \<open>one_over_radius2\<close> is an infinity, or
    \<open>one_over_radius2\<close> overflows on its conversion to \<open>float\<close>;
  \<^item> \<open>yy\<close>, \<open>xx\<close> or their sum is an infinity;
  \<^item> the product overflows.

  When \<open>radius * radius\<close> is an infinity, \<open>one_over_radius2\<close> is 0.
\<close>

definition pixel_rr :: "real \<Rightarrow> real \<Rightarrow> real \<Rightarrow> int \<Rightarrow> real option" where
  "pixel_rr rad xc yy xp =
     (let rr = to_float (rad * rad);
          one_over_radius2 = (if finite_float rr then to_float (to_double (1 / rr)) else 0);
          xx = to_float (to_double (to_double (real_of_int xp + 0.5) - xc));
          xx = to_float (xx * xx);
          rr' = to_float (to_float (yy + xx) * one_over_radius2)
      in if rr = 0 \<or> \<not> finite_float one_over_radius2 then None
         else if \<not> finite_float yy \<or> \<not> finite_float xx \<or> \<not> finite_float (to_float (yy + xx))
           then None
         else if \<not> finite_float rr' then None
         else Some rr')"

text \<open>
  The squared distance of the row \<open>yp\<close> from the centre of the dab; an infinity when the
  square overflows.
\<close>

definition row_yy :: "real \<Rightarrow> int \<Rightarrow> real" where
  "row_yy yc yp =
     (let yy = to_float (to_double (to_double (real_of_int yp + 0.5) - yc))
      in to_float (yy * yy))"

subsection \<open>Drawing a dab\<close>

text \<open>The four stores of the innermost block, in the order of the source.\<close>

definition blend_pixel ::
  "32 word \<Rightarrow> 32 word \<Rightarrow> 32 word \<Rightarrow> 32 word \<Rightarrow> 32 word \<Rightarrow> int \<Rightarrow> buffer \<Rightarrow> buffer" where
  "blend_pixel opa_a opa_b color_r15 color_g15 color_b15 idx rgba_p =
     (let m3 = rgba_p(idx + 3 := ucast (opa_a + (opa_b * ucast (rgba_p (idx + 3))) div 2 ^ 15));
          m0 = m3(idx + 0 := ucast ((opa_a * color_r15 + opa_b * ucast (m3 (idx + 0))) div 2 ^ 15));
          m1 = m0(idx + 1 := ucast ((opa_a * color_g15 + opa_b * ucast (m0 (idx + 1))) div 2 ^ 15));
          m2 = m1(idx + 2 := ucast ((opa_a * color_b15 + opa_b * ucast (m1 (idx + 2))) div 2 ^ 15))
      in m2)"

text \<open>The top alpha after the eraser factor, and the bottom alpha, of a pixel at \<open>rr\<close>.\<close>

definition pixel_opa_b :: "Dab \<Rightarrow> real \<Rightarrow> 32 word" where
  "pixel_opa_b d rr =
     2 ^ 15 - to_uint32 (to_float (2 ^ 15 * dab_opa (opaque d) (hardness d) rr))"

definition pixel_opa_a :: "Dab \<Rightarrow> real \<Rightarrow> 32 word" where
  "pixel_opa_a d rr =
     to_uint32
       (to_float
          (to_float (real (unat (to_uint32 (to_float (2 ^ 15 * dab_opa (opaque d) (hardness d) rr)))))
           * alpha_eraser d))"

text \<open>The three colours of the dab as \<open>uint32_t\<close>.\<close>

definition color15 :: "real \<Rightarrow> 32 word" where
  "color15 c = to_uint32 (to_float (c * 2 ^ 15))"

definition draw_pixel :: "Dab \<Rightarrow> real \<Rightarrow> real \<Rightarrow> int \<Rightarrow> int \<Rightarrow> buffer \<Rightarrow> buffer option" where
  "draw_pixel d xc yy yp xp rgba_p =
     (case pixel_rr (radius d) xc yy xp of
        None \<Rightarrow> Some rgba_p
      | Some rr \<Rightarrow>
          if rr \<le> 1 then
            let idx = pixel_idx yp xp
            in if in_tile idx then
                 Some (blend_pixel (pixel_opa_a d rr) (pixel_opa_b d rr)
                         (color15 (color_r d)) (color15 (color_g d)) (color15 (color_b d))
                         idx rgba_p)
               else None
          else Some rgba_p)"

definition draw_tile :: "Dab \<Rightarrow> int \<Rightarrow> int \<Rightarrow> buffer \<Rightarrow> buffer option" where
  "draw_tile d tx ty rgba_p =
     (let r_fringe = to_float (radius d + 1);
          xc = to_float (dab_x d - to_float (real_of_int (int32 (tx * TILE_SIZE))));
          yc = to_float (dab_y d - to_float (real_of_int (int32 (ty * TILE_SIZE))))
      in case clip_rect xc yc r_fringe of
           (x0, y0, x1, y1) \<Rightarrow>
             fold (\<lambda>yp. fold (\<lambda>xp b. Option.bind b (draw_pixel d xc (row_yy yc yp) yp xp))
                          [x0 .. x1])
               [y0 .. y1] (Some rgba_p))"

text \<open>
  The loop over the tiles. \<open>False\<close> is the early return on a failed fetch, \<open>True\<close> the
  normal end of the loop.
\<close>

fun draw_tiles :: "'p Python \<Rightarrow> Dab \<Rightarrow> (int \<times> int) list \<Rightarrow> 'p state \<Rightarrow> (bool, 'p) result" where
  "draw_tiles P d [] sw = Inr (True, sw)"
| "draw_tiles P d (t # ts) sw =
     (case get_tile_memory P (fst t) (snd t) False sw of
        (None, sw') \<Rightarrow> Inr (False, sw')
      | (Some rgba_p, s', w') \<Rightarrow>
          (case draw_tile d (fst t) (snd t) (heap w' rgba_p) of
             None \<Rightarrow> Inl (OutOfBounds, s', w')
           | Some b \<Rightarrow> draw_tiles P d ts (s', w'\<lparr>heap := (heap w')(rgba_p := b)\<rparr>)))"

definition draw_dab :: "'p Python \<Rightarrow> Dab \<Rightarrow> 'p state \<Rightarrow> (bool, 'p) result" where
  "draw_dab P d sw =
     (if \<not> (color_r d \<ge> 0 \<and> color_r d \<le> 1) then Inl (AssertionFailed, sw)
      else if \<not> (color_g d \<ge> 0 \<and> color_g d \<le> 1) then Inl (AssertionFailed, sw)
      else if \<not> (color_b d \<ge> 0 \<and> color_b d \<le> 1) then Inl (AssertionFailed, sw)
      else if opaque d = 0 then Inr (False, sw)
      else if radius d < to_double 0.1 then Inr (False, sw)
      else if hardness d = 0 then Inr (False, sw)
      else if \<not> (atomic (fst sw) > 0) then Inl (AssertionFailed, sw)
      else
        let r_fringe = to_float (radius d + 1)
        in case draw_tiles P d (tile_range (dab_x d) (dab_y d) r_fringe) sw of
             Inl e \<Rightarrow> Inl e
           | Inr (False, sw') \<Rightarrow> Inr (True, sw')
           | Inr (True, s', w') \<Rightarrow>
               let bb_x = to_int (real_of_int \<lfloor>to_float (dab_x d - to_float (radius d + 1))\<rfloor>);
                   bb_y = to_int (real_of_int \<lfloor>to_float (dab_y d - to_float (radius d + 1))\<rfloor>);
                   bb_w = to_int (real_of_int \<lceil>to_float (2 * to_float (radius d + 1))\<rceil>);
                   bb_h = to_int (real_of_int \<lceil>to_float (2 * to_float (radius d + 1))\<rceil>);
                   b1 = ExpandRectToIncludePoint (dirty_bbox s') bb_x bb_y;
                   b2 = ExpandRectToIncludePoint b1 (int32 (int32 (bb_x + bb_w) - 1))
                          (int32 (int32 (bb_y + bb_h) - 1))
               in Inr (True, s'\<lparr>dirty_bbox := b2\<rparr>, w'))"

subsection \<open>Sampling the colour under a dab\<close>

record accum =
  sum_r :: real
  sum_g :: real
  sum_b :: real
  sum_a :: real
  sum_weight :: real

definition sample_pixel ::
  "real \<Rightarrow> real \<Rightarrow> real \<Rightarrow> int \<Rightarrow> int \<Rightarrow> buffer \<Rightarrow> accum \<Rightarrow> accum option" where
  "sample_pixel rad xc yy yp xp rgba_p acc =
     (case pixel_rr rad xc yy xp of
        None \<Rightarrow> Some acc
      | Some rr \<Rightarrow>
          if rr \<le> 1 then
            let opa = dab_opa 1 0.5 rr;
                idx = pixel_idx yp xp
            in if in_tile idx then
                 Some
                   \<lparr>sum_r = to_float (sum_r acc
                              + to_float (to_float (opa * real (unat (rgba_p (idx + 0)))) / 2 ^ 15)),
                    sum_g = to_float (sum_g acc
                              + to_float (to_float (opa * real (unat (rgba_p (idx + 1)))) / 2 ^ 15)),
                    sum_b = to_float (sum_b acc
                              + to_float (to_float (opa * real (unat (rgba_p (idx + 2)))) / 2 ^ 15)),
                    sum_a = to_float (sum_a acc
                              + to_float (to_float (opa * real (unat (rgba_p (idx + 3)))) / 2 ^ 15)),
                    sum_weight = to_float (sum_weight acc + opa)\<rparr>
               else None
          else Some acc)"

definition sample_tile ::
  "real \<Rightarrow> real \<Rightarrow> real \<Rightarrow> int \<Rightarrow> int \<Rightarrow> buffer \<Rightarrow> accum \<Rightarrow> accum option" where
  "sample_tile x y rad tx ty rgba_p acc =
     (let r_fringe = to_float (rad + 1);
          xc = to_float (x - to_float (real_of_int (int32 (tx * TILE_SIZE))));
          yc = to_float (y - to_float (real_of_int (int32 (ty * TILE_SIZE))))
      in case clip_rect xc yc r_fringe of
           (x0, y0, x1, y1) \<Rightarrow>
             fold (\<lambda>yp. fold (\<lambda>xp a. Option.bind a
                                       (sample_pixel rad xc (row_yy yc yp) yp xp rgba_p))
                          [x0 .. x1])
               [y0 .. y1] (Some acc))"

text \<open>
  The loop over the tiles. The sums are \<open>None\<close> when the loop ends at the early return on
  a failed fetch.
\<close>

fun sample_tiles ::
  "'p Python \<Rightarrow> real \<Rightarrow> real \<Rightarrow> real \<Rightarrow> (int \<times> int) list \<Rightarrow> accum \<Rightarrow> 'p state
     \<Rightarrow> (accum option, 'p) result" where
  "sample_tiles P x y rad [] acc sw = Inr (Some acc, sw)"
| "sample_tiles P x y rad (t # ts) acc sw =
     (case get_tile_memory P (fst t) (snd t) True sw of
        (None, sw') \<Rightarrow> Inr (None, sw')
      | (Some rgba_p, s', w') \<Rightarrow>
          (case sample_tile x y rad (fst t) (snd t) (heap w' rgba_p) acc of
             None \<Rightarrow> Inl (OutOfBounds, s', w')
           | Some acc' \<Rightarrow> sample_tiles P x y rad ts acc' (s', w')))"

text \<open>
  \<open>get_color\<close> answers \<open>(color_r, color_g, color_b, color_a)\<close>, or \<open>None\<close> when it
  returns after a failed fetch without storing to its four output pointers.
\<close>

definition get_color ::
  "'p Python \<Rightarrow> real \<Rightarrow> real \<Rightarrow> real \<Rightarrow> 'p state
     \<Rightarrow> ((real \<times> real \<times> real \<times> real) option, 'p) result" where
  "get_color P x y rad sw =
     (if \<not> (rad \<ge> to_double 0.1) then Inl (AssertionFailed, sw)
      else
        let r_fringe = to_float (rad + 1)
        in case sample_tiles P x y rad (tile_range x y r_fringe)
                  \<lparr>sum_r = 0, sum_g = 0, sum_b = 0, sum_a = 0, sum_weight = 0\<rparr> sw of
             Inl e \<Rightarrow> Inl e
           | Inr (None, sw') \<Rightarrow> Inr (None, sw')
           | Inr (Some acc, sw') \<Rightarrow>
               if \<not> (sum_weight acc > 0) then Inl (AssertionFailed, sw')
               else
                 let a = to_float (sum_a acc / sum_weight acc);
                     r = to_float (sum_r acc / sum_weight acc);
                     g = to_float (sum_g acc / sum_weight acc);
                     b = to_float (sum_b acc / sum_weight acc);
                     c = (if a > 0 then (to_float (r / a), to_float (g / a), to_float (b / a), a)
                          else (0, 1, 0, a))
                 in case c of
                      (cr, cg, cb, ca) \<Rightarrow>
                        if ca \<ge> 0 \<and> cr \<ge> 0 \<and> cg \<ge> 0 \<and> cb \<ge> 0
                           \<and> cr \<le> to_double 1.001 \<and> cg \<le> to_double 1.001
                           \<and> cb \<le> to_double 1.001
                        then Inr (Some c, sw') else Inl (AssertionFailed, sw'))"

subsection \<open>Flattening a tile onto 8-bit RGB\<close>

text \<open>
  \<open>src\<close> is the data of the source array, \<open>dst\<close> the memory of the destination array
  from its data pointer on, indexed in bytes, and \<open>stride\<close> is \<open>strides[0]\<close> of the
  destination. The loops carry the pointers \<open>src_p\<close>, \<open>dst_p\<close> and \<open>p\<close> as offsets.
\<close>

type_synonym rgb8 = "int \<Rightarrow> 8 word"

definition composite_pixel :: "buffer \<Rightarrow> int \<Rightarrow> int \<Rightarrow> rgb8 \<Rightarrow> rgb8" where
  "composite_pixel src src_p dst_p dst =
     (let one_minus_topAlpha = (2 ^ 15 - ucast (src (src_p + 3)) :: 32 word);
          d0 = dst(dst_p + 0 :=
                 ucast ((ucast (src (src_p + 0)) * 255
                         + one_minus_topAlpha * ucast (dst (dst_p + 0))) div 2 ^ 15));
          d1 = d0(dst_p + 1 :=
                 ucast ((ucast (src (src_p + 1)) * 255
                         + one_minus_topAlpha * ucast (d0 (dst_p + 1))) div 2 ^ 15));
          d2 = d1(dst_p + 2 :=
                 ucast ((ucast (src (src_p + 2)) * 255
                         + one_minus_topAlpha * ucast (d1 (dst_p + 2))) div 2 ^ 15))
      in d2)"

definition composite_row :: "buffer \<Rightarrow> int \<times> int \<times> rgb8 \<Rightarrow> int \<times> int \<times> rgb8" where
  "composite_row src st =
     fold (\<lambda>x (src_p, dst_p, dst). (src_p + 4, dst_p + 3, composite_pixel src src_p dst_p dst))
       [0 .. TILE_SIZE - 1] st"

definition composite_tile_over_rgb8 :: "buffer \<Rightarrow> int \<Rightarrow> rgb8 \<Rightarrow> rgb8" where
  "composite_tile_over_rgb8 src stride dst =
     snd (snd (fold (\<lambda>y (src_p, p, dst).
                       case composite_row src (src_p, p, dst) of
                         (src_p', dst_p', dst') \<Rightarrow> (src_p', p + stride, dst'))
                 [0 .. TILE_SIZE - 1] (0, 0, dst)))"

subsection \<open>Well-formed tiles and dabs\<close>

text \<open>
  A tile of the data model: each of the \<open>TILE_SIZE * TILE_SIZE\<close> pixels has its four
  channels at most \<open>2 ^ 15\<close> and is premultiplied, no colour channel above alpha.
\<close>

definition pixel_ok :: "buffer \<Rightarrow> int \<Rightarrow> bool" where
  "pixel_ok rgba_p idx \<longleftrightarrow>
     unat (rgba_p (idx + 3)) \<le> 2 ^ 15 \<and>
     unat (rgba_p (idx + 0)) \<le> unat (rgba_p (idx + 3)) \<and>
     unat (rgba_p (idx + 1)) \<le> unat (rgba_p (idx + 3)) \<and>
     unat (rgba_p (idx + 2)) \<le> unat (rgba_p (idx + 3))"

definition tile_ok :: "buffer \<Rightarrow> bool" where
  "tile_ok rgba_p \<longleftrightarrow>
     (\<forall>yp xp. 0 \<le> yp \<and> yp < TILE_SIZE \<and> 0 \<le> xp \<and> xp < TILE_SIZE
        \<longrightarrow> pixel_ok rgba_p (pixel_idx yp xp))"

text \<open>
  A finite value of type \<open>float\<close>: a number below \<open>2\<^sup>1\<^sup>2\<^sup>8\<close> in magnitude that rounding
  to \<open>float\<close> does not change.
\<close>

definition is_float :: "real \<Rightarrow> bool" where
  "is_float x \<longleftrightarrow> to_float x = x \<and> finite_float x"

text \<open>
  A dab of the data model: nine finite values of type \<open>float\<close>, with colours, opacity,
  hardness and eraser alpha in \<open>[0, 1]\<close>.
\<close>

definition dab_ok :: "Dab \<Rightarrow> bool" where
  "dab_ok d \<longleftrightarrow>
     is_float (dab_x d) \<and> is_float (dab_y d) \<and> is_float (radius d) \<and>
     is_float (color_r d) \<and> is_float (color_g d) \<and> is_float (color_b d) \<and>
     is_float (opaque d) \<and> is_float (hardness d) \<and> is_float (alpha_eraser d) \<and>
     0 \<le> color_r d \<and> color_r d \<le> 1 \<and> 0 \<le> color_g d \<and> color_g d \<le> 1 \<and>
     0 \<le> color_b d \<and> color_b d \<le> 1 \<and> 0 \<le> opaque d \<and> opaque d \<le> 1 \<and>
     0 \<le> hardness d \<and> hardness d \<le> 1 \<and> 0 \<le> alpha_eraser d \<and> alpha_eraser d \<le> 1"

subsection \<open>The cache after a run of fetches\<close>

text \<open>
  The object after the tiles \<open>pre\<close> were inserted, in this order, into a cache that
  started empty: the valid count, the write position, and the last eight tiles
  inserted, each in the slot of its position modulo 8.
\<close>

definition cache_after :: "(int \<times> int) list \<Rightarrow> TiledSurface \<Rightarrow> bool" where
  "cache_after pre s \<longleftrightarrow>
     tileMemoryValid s = min (int (length pre)) 8 \<and>
     tileMemoryWrite s = int (length pre) mod 8 \<and>
     (\<forall>j. 0 \<le> j \<and> j < int (length pre) \<and> int (length pre) \<le> j + 8 \<longrightarrow>
        (tm_tx (tileMemory s (j mod 8)), tm_ty (tileMemory s (j mod 8))) = pre ! nat j)"

text \<open>
  The cache as the spec (4.2) words it, to compare with \<open>get_tile_memory\<close>: a hit returns
  the cached reference and inserts nothing; a miss calls the store and inserts the
  tile, which takes the place of the oldest entry once \<open>N = 8\<close> are held.
  \<open>spec_cached ins\<close> are the tiles held after the insertions \<open>ins\<close>, the newest eight;
  \<open>spec_inserted ins ts\<close> are the insertions after the write-mode fetches \<open>ts\<close> that
  follow the insertions \<open>ins\<close>; \<open>store_call t\<close> is the call of the store for a tile.
\<close>

definition spec_cached :: "(int \<times> int) list \<Rightarrow> (int \<times> int) list" where
  "spec_cached ins = drop (length ins - 8) ins"

fun spec_inserted :: "(int \<times> int) list \<Rightarrow> (int \<times> int) list \<Rightarrow> (int \<times> int) list" where
  "spec_inserted ins [] = ins"
| "spec_inserted ins (t # ts) =
     (if t \<in> set (spec_cached ins) then spec_inserted ins ts
      else spec_inserted (ins @ [t]) ts)"

definition store_call :: "int \<times> int \<Rightarrow> call" where
  "store_call t = GetTileMemory (fst t) (snd t) False"

subsection \<open>Concrete objects\<close>

text \<open>A freshly constructed surface, an empty world, and a Python half that never fails.\<close>

definition blank_surface :: TiledSurface where
  "blank_surface =
     TiledSurface_new
       \<lparr>dirty_bbox = \<lparr>rect_x = 0, rect_y = 0, rect_w = 0, rect_h = 0\<rparr>,
        atomic = 0,
        tileMemory = (\<lambda>i. \<lparr>tm_tx = 0, tm_ty = 0, tm_rgba_p = 0\<rparr>),
        tileMemoryValid = 0,
        tileMemoryWrite = 0\<rparr>"

definition blank_world :: "unit world" where
  "blank_world = \<lparr>heap = (\<lambda>a i. 0), py_state = (), calls = []\<rparr>"

definition good_python :: "unit Python" where
  "good_python =
     \<lparr>py_get_tile_memory = (\<lambda>p tx ty readonly. (Some 0, p)),
      py_notify_observers = (\<lambda>p self x y w h. (True, p))\<rparr>"

definition nine_tiles :: "(int \<times> int) list" where
  "nine_tiles = [(0, 0), (1, 0), (2, 0), (3, 0), (4, 0), (5, 0), (6, 0), (7, 0), (8, 0)]"

text \<open>
  Twelve fetches of the same nine tiles, in which tile \<open>(0, 0)\<close> is fetched four times
  before the ninth tile is.
\<close>

definition revisit_tiles :: "(int \<times> int) list" where
  "revisit_tiles =
     [(0, 0), (1, 0), (0, 0), (0, 0), (2, 0), (3, 0), (4, 0), (5, 0), (6, 0), (7, 0), (0, 0),
      (8, 0)]"

text \<open>A surface inside a batch nested two deep, with a dirty region.\<close>

definition nested_surface :: TiledSurface where
  "nested_surface =
     blank_surface\<lparr>atomic := 2,
                   dirty_bbox := \<lparr>rect_x = 5, rect_y = 6, rect_w = 7, rect_h = 8\<rparr>\<rparr>"

definition open_surface :: TiledSurface where
  "open_surface = nested_surface\<lparr>atomic := 1\<rparr>"

definition black_dab :: Dab where
  "black_dab =
     \<lparr>dab_x = 100, dab_y = 100, radius = 10, color_r = 0, color_g = 0, color_b = 0,
      opaque = 0, hardness = 0.5, alpha_eraser = 1\<rparr>"

subsection \<open>Transparent source pixels\<close>

text \<open>All four channels of the source pixel at offset \<open>p\<close> are zero.\<close>

definition transparent_at :: "buffer \<Rightarrow> int \<Rightarrow> bool" where
  "transparent_at src p \<longleftrightarrow>
     src (p + 0) = 0 \<and> src (p + 1) = 0 \<and> src (p + 2) = 0 \<and> src (p + 3) = 0"

text \<open>The alpha channel is zero at every pixel of the tile.\<close>

definition alpha_zero :: "buffer \<Rightarrow> bool" where
  "alpha_zero src \<longleftrightarrow>
     (\<forall>yp xp. 0 \<le> yp \<and> yp < TILE_SIZE \<and> 0 \<le> xp \<and> xp < TILE_SIZE
        \<longrightarrow> src (pixel_idx yp xp + 3) = 0)"

subsection \<open>Products of the blend within 32 bits\<close>

text \<open>
  The products and sums that \<open>blend_pixel\<close> forms in \<open>uint32_t\<close>, computed without
  wrap-around on the values of the operands, all stay below \<open>2 ^ 32\<close>.
\<close>

definition blend_fits ::
  "32 word \<Rightarrow> 32 word \<Rightarrow> 32 word \<Rightarrow> 32 word \<Rightarrow> 32 word \<Rightarrow> int \<Rightarrow> buffer \<Rightarrow> bool" where
  "blend_fits opa_a opa_b color_r15 color_g15 color_b15 idx rgba_p \<longleftrightarrow>
     unat opa_b * unat (rgba_p (idx + 3)) < 2 ^ 32 \<and>
     unat opa_a + unat opa_b * unat (rgba_p (idx + 3)) div 2 ^ 15 < 2 ^ 32 \<and>
     unat opa_a * unat color_r15 < 2 ^ 32 \<and>
     unat opa_b * unat (rgba_p (idx + 0)) < 2 ^ 32 \<and>
     unat opa_a * unat color_r15 + unat opa_b * unat (rgba_p (idx + 0)) < 2 ^ 32 \<and>
     unat opa_a * unat color_g15 < 2 ^ 32 \<and>
     unat opa_b * unat (rgba_p (idx + 1)) < 2 ^ 32 \<and>
     unat opa_a * unat color_g15 + unat opa_b * unat (rgba_p (idx + 1)) < 2 ^ 32 \<and>
     unat opa_a * unat color_b15 < 2 ^ 32 \<and>
     unat opa_b * unat (rgba_p (idx + 2)) < 2 ^ 32 \<and>
     unat opa_a * unat color_b15 + unat opa_b * unat (rgba_p (idx + 2)) < 2 ^ 32"

subsection \<open>The scenario of one dab in one batch\<close>

definition scenario_dab :: Dab where
  "scenario_dab =
     \<lparr>dab_x = 100, dab_y = 100, radius = 10, color_r = 1, color_g = 0, color_b = 0,
      opaque = 1, hardness = 0.5, alpha_eraser = 1\<rparr>"

definition run_scenario :: "'p Python \<Rightarrow> 'p state \<Rightarrow> (unit, 'p) result" where
  "run_scenario P sw =
     (case begin_atomic sw of
        Inl e \<Rightarrow> Inl e
      | Inr (u, sw1) \<Rightarrow>
          (case draw_dab P scenario_dab sw1 of
             Inl e \<Rightarrow> Inl e
           | Inr (modified, sw2) \<Rightarrow> end_atomic P sw2))"

text \<open>
  A small dab on the right edge of tile \<open>(0, 0)\<close> that also reaches tile \<open>(1, 0)\<close>, and a
  Python half that serves the tiles of column 0 only.
\<close>

definition edge_dab :: Dab where
  "edge_dab =
     \<lparr>dab_x = 63.5, dab_y = 2.5, radius = 0.5, color_r = 1, color_g = 0, color_b = 0,
      opaque = 1, hardness = 0.5, alpha_eraser = 1\<rparr>"

definition flaky_python :: "unit Python" where
  "flaky_python =
     \<lparr>py_get_tile_memory = (\<lambda>p tx ty readonly. (if tx = 0 then Some 0 else None, p)),
      py_notify_observers = (\<lambda>p self x y w h. (True, p))\<rparr>"

text \<open>
  A dab with a soft rim, whose pixel in column 12 and row 19 of tile \<open>(0, 0)\<close> has
  \<open>rr = 0.690625\<close> and the opacity \<open>0.515625\<close> in exact arithmetic, and a dab far to
  the right, where the distance between neighbouring values of type \<open>float\<close> is 2.
\<close>

definition soft_dab :: Dab where
  "soft_dab =
     \<lparr>dab_x = 20.75, dab_y = 20.5, radius = 10, color_r = 1, color_g = 0, color_b = 0,
      opaque = 1, hardness = 0.625, alpha_eraser = 1\<rparr>"

definition far_dab :: Dab where
  "far_dab =
     \<lparr>dab_x = 16777276, dab_y = 2.5, radius = 2, color_r = 1, color_g = 0, color_b = 0,
      opaque = 1, hardness = 0.5, alpha_eraser = 1\<rparr>"

text \<open>
  A Python half whose \<open>notify_observers\<close> keeps the object it is called on and then
  raises, and a world for it that has kept nothing yet.
\<close>

definition raising_python :: "TiledSurface option Python" where
  "raising_python =
     \<lparr>py_get_tile_memory = (\<lambda>p tx ty readonly. (Some 0, p)),
      py_notify_observers = (\<lambda>p self x y w h. (False, Some self))\<rparr>"

definition raising_world :: "TiledSurface option world" where
  "raising_world = \<lparr>heap = (\<lambda>a i. 0), py_state = None, calls = []\<rparr>"



section \<open>Machine arithmetic\<close>

lemma round_even_of_int: "round_even (real_of_int n) = n"
  by (simp add: round_even_def)

lemma round_even_error: "\<bar>real_of_int (round_even x) - x\<bar> \<le> 1 / 2"
proof -
  have "real_of_int \<lfloor>x\<rfloor> \<le> x" "x < real_of_int \<lfloor>x\<rfloor> + 1" by linarith+
  then show ?thesis by (auto simp: round_even_def Let_def)
qed

lemma round_even_nonneg: "0 \<le> x \<Longrightarrow> 0 \<le> round_even x"
  by (auto simp: round_even_def Let_def)

lemma round_even_nonpos: "x \<le> 0 \<Longrightarrow> round_even x \<le> 0"
proof -
  assume x: "x \<le> 0"
  show ?thesis
  proof (cases "x = 0")
    case True
    then show ?thesis by (simp add: round_even_def)
  next
    case False
    with x have "x < 0" by simp
    then have "\<lfloor>x\<rfloor> \<le> - 1" by (simp add: floor_le_iff)
    moreover have "x < real_of_int \<lfloor>x\<rfloor> + 1" by linarith
    ultimately show ?thesis using \<open>x < 0\<close> by (auto simp: round_even_def Let_def)
  qed
qed

lemma fp_round_nonneg: "0 \<le> x \<Longrightarrow> 0 \<le> fp_round p emin x"
  by (simp add: fp_round_def Let_def round_even_nonneg)

lemma fp_round_nonpos: "x \<le> 0 \<Longrightarrow> fp_round p emin x \<le> 0"
proof -
  assume x: "x \<le> 0"
  have "real_of_int (round_even (x / 2 powr e)) * 2 powr e \<le> 0" for e
  proof -
    from x have "x / 2 powr e \<le> 0" by (simp add: divide_nonpos_pos)
    then have "round_even (x / 2 powr e) \<le> 0" by (rule round_even_nonpos)
    then show ?thesis by (simp add: mult_nonpos_nonneg)
  qed
  then show ?thesis by (simp add: fp_round_def Let_def)
qed

text \<open>The result when the binary exponent of the argument is known.\<close>

lemma fp_round_eval:
  assumes "2 powr real_of_int k \<le> \<bar>x\<bar>" "\<bar>x\<bar> < 2 powr real_of_int (k + 1)"
  shows "fp_round p emin x =
           real_of_int (round_even (x / 2 powr real_of_int (max (k - (int p - 1)) emin)))
             * 2 powr real_of_int (max (k - (int p - 1)) emin)"
proof -
  have "0 < (2::real) powr real_of_int k" by simp
  with assms(1) have x: "0 < \<bar>x\<bar>" by linarith
  then have "x \<noteq> 0" by auto
  from x assms have "\<lfloor>log 2 \<bar>x\<bar>\<rfloor> = k"
    by (simp add: floor_log_eq_powr_iff)
  with \<open>x \<noteq> 0\<close> show ?thesis by (simp add: fp_round_def Let_def)
qed

lemma fp_round_error:
  assumes "1 \<le> p"
  shows "\<bar>fp_round p emin x - x\<bar> \<le> \<bar>x\<bar> / 2 ^ p + 2 powr (real_of_int emin - 1)"
proof (cases "x = 0")
  case True
  then show ?thesis by (simp add: fp_round_def)
next
  case False
  define k where "k = \<lfloor>log 2 \<bar>x\<bar>\<rfloor>"
  define e where "e = max (k - (int p - 1)) emin"
  define U where "U = 2 powr real_of_int e"
  from False have x: "0 < \<bar>x\<bar>" by simp
  have kx: "2 powr real_of_int k \<le> \<bar>x\<bar>"
    using x floor_log_eq_powr_iff [of "\<bar>x\<bar>" 2 k] by (simp add: k_def)
  have U: "0 < U" by (simp add: U_def)
  have r: "fp_round p emin x = real_of_int (round_even (x / U)) * U"
    using False by (simp add: fp_round_def Let_def U_def e_def k_def)
  have "\<bar>real_of_int (round_even (x / U)) * U - x\<bar> = \<bar>real_of_int (round_even (x / U)) - x / U\<bar> * U"
  proof -
    have "real_of_int (round_even (x / U)) * U - x = (real_of_int (round_even (x / U)) - x / U) * U"
      using U by (simp add: field_simps)
    then show ?thesis using U by (simp add: abs_mult)
  qed
  also have "\<dots> \<le> 1 / 2 * U"
    using round_even_error [of "x / U"] U by (intro mult_right_mono) simp_all
  finally have err: "\<bar>fp_round p emin x - x\<bar> \<le> U / 2" by (simp add: r)
  have "U / 2 \<le> \<bar>x\<bar> / 2 ^ p + 2 powr (real_of_int emin - 1)"
  proof (cases "k - (int p - 1) \<le> emin")
    case True
    then have "U = 2 powr real_of_int emin" by (simp add: U_def e_def max_def)
    then have "U / 2 = 2 powr (real_of_int emin - 1)" by (simp add: powr_diff)
    then show ?thesis by simp
  next
    case False
    then have "e = k - (int p - 1)" by (simp add: e_def max_def)
    then have "U = 2 powr (real_of_int k - (real p - 1))" by (simp add: U_def)
    also have "\<dots> = 2 powr real_of_int k / 2 powr (real p - 1)" by (simp add: powr_diff)
    also have "2 powr (real p - 1) = 2 ^ p / (2::real)"
      using assms by (simp add: powr_diff powr_realpow)
    finally have "U / 2 = 2 powr real_of_int k / 2 ^ p" by simp
    also have "\<dots> \<le> \<bar>x\<bar> / 2 ^ p" using kx by (simp add: divide_right_mono)
    finally show ?thesis by (simp add: add_increasing2)
  qed
  with err show ?thesis by linarith
qed

text \<open>A value with at most \<open>p\<close> significant bits above the smallest exponent is not changed.\<close>

lemma fp_round_exact:
  assumes x: "x = real_of_int m * 2 powr real_of_int q" and m: "\<bar>m\<bar> < 2 ^ p" and q: "emin \<le> q"
    and p: "1 \<le> p"
  shows "fp_round p emin x = x"
proof (cases "m = 0")
  case True
  with x show ?thesis by (simp add: fp_round_def)
next
  case False
  then have x0: "x \<noteq> 0" using x by simp
  define k where "k = \<lfloor>log 2 \<bar>x\<bar>\<rfloor>"
  define e where "e = max (k - (int p - 1)) emin"
  have "\<bar>x\<bar> = real_of_int \<bar>m\<bar> * 2 powr real_of_int q" by (simp add: x abs_mult)
  also have "\<dots> < 2 ^ p * 2 powr real_of_int q"
    using m by (intro mult_strict_right_mono) (simp_all add: of_int_less_numeral_power_cancel_iff flip: of_int_abs)
  also have "\<dots> = 2 powr real_of_int (int p + q)"
    by (simp add: powr_add powr_realpow)
  finally have lt: "\<bar>x\<bar> < 2 powr real_of_int (int p + q)" .
  have "2 powr real_of_int k \<le> \<bar>x\<bar>"
    using x0 floor_log_eq_powr_iff [of "\<bar>x\<bar>" 2 k] by (simp add: k_def)
  with lt have "2 powr real_of_int k < 2 powr real_of_int (int p + q)" by linarith
  then have "k < int p + q" by simp
  with q have eq: "e \<le> q" by (simp add: e_def)
  define j where "j = nat (q - e)"
  from eq have j: "q = e + int j" by (simp add: j_def)
  have "x / 2 powr real_of_int e = real_of_int m * 2 powr real_of_int (int j)"
    by (simp add: x j powr_add)
  also have "\<dots> = real_of_int (m * 2 ^ j)" by (simp add: powr_realpow)
  finally have i: "x / 2 powr real_of_int e = real_of_int (m * 2 ^ j)" .
  have "fp_round p emin x = real_of_int (round_even (x / 2 powr real_of_int e)) * 2 powr real_of_int e"
    using x0 by (simp add: fp_round_def Let_def e_def k_def)
  also have "\<dots> = real_of_int (m * 2 ^ j) * 2 powr real_of_int e"
    by (simp only: i round_even_of_int)
  also have "\<dots> = x / 2 powr real_of_int e * 2 powr real_of_int e"
    by (simp only: i)
  also have "\<dots> = x" by simp
  finally show ?thesis .
qed

lemma to_float_error: "\<bar>to_float x - x\<bar> \<le> \<bar>x\<bar> / 2 ^ 24 + 1 / 2 ^ 150"
proof -
  have "2 powr (real_of_int (- 149) - 1) = 1 / 2 ^ 150"
    by (simp add: powr_minus_divide)
  with fp_round_error [of 24 "- 149" x] show ?thesis by (simp add: to_float_def)
qed

lemma to_float_nonneg: "0 \<le> x \<Longrightarrow> 0 \<le> to_float x"
  by (simp add: to_float_def fp_round_nonneg)

lemma to_float_nonpos: "x \<le> 0 \<Longrightarrow> to_float x \<le> 0"
  by (simp add: to_float_def fp_round_nonpos)

lemma to_double_nonneg: "0 \<le> x \<Longrightarrow> 0 \<le> to_double x"
  by (simp add: to_double_def fp_round_nonneg)

lemma to_float_0: "to_float 0 = 0"
  by (simp add: to_float_def fp_round_def)

lemma to_double_0: "to_double 0 = 0"
  by (simp add: to_double_def fp_round_def)

lemma to_float_frac:
  assumes "x * 2 ^ j = real_of_int \<lfloor>x * 2 ^ j\<rfloor>" "\<bar>\<lfloor>x * 2 ^ j\<rfloor>\<bar> < 2 ^ 24" "j \<le> 149"
  shows "to_float x = x"
proof -
  have "x = real_of_int \<lfloor>x * 2 ^ j\<rfloor> * 2 powr real_of_int (- int j)"
    using assms(1) by (simp add: powr_minus_divide powr_realpow field_simps)
  from fp_round_exact [OF this assms(2)] assms(3) show ?thesis by (simp add: to_float_def)
qed

lemma to_double_frac:
  assumes "x * 2 ^ j = real_of_int \<lfloor>x * 2 ^ j\<rfloor>" "\<bar>\<lfloor>x * 2 ^ j\<rfloor>\<bar> < 2 ^ 53" "j \<le> 1074"
  shows "to_double x = x"
proof -
  have "x = real_of_int \<lfloor>x * 2 ^ j\<rfloor> * 2 powr real_of_int (- int j)"
    using assms(1) by (simp add: powr_minus_divide powr_realpow field_simps)
  from fp_round_exact [OF this assms(2)] assms(3) show ?thesis by (simp add: to_double_def)
qed

lemmas to_float_exact = to_float_frac [where j = 0, simplified] to_float_frac [where j = 1, simplified]
  to_float_frac [where j = 2, simplified] to_float_frac [where j = 3, simplified]
  to_float_frac [where j = 4, simplified]

lemma to_double_tenth: "to_double 0.1 = 7205759403792794 / 2 ^ 56"
proof -
  have "to_double (1 / 10) =
          real_of_int (round_even (1 / 10 / 2 powr real_of_int (max (- 4 - (int 53 - 1)) (- 1074))))
            * 2 powr real_of_int (max (- 4 - (int 53 - 1)) (- 1074))"
    unfolding to_double_def by (rule fp_round_eval) (simp_all add: powr_minus_divide)
  also have "\<dots> = 7205759403792794 / 2 ^ 56"
    by (simp add: powr_minus_divide round_even_def Let_def)
  finally show ?thesis by simp
qed

lemma tenth_le_to_double: "(0.1 :: real) \<le> to_double 0.1"
  by (simp add: to_double_tenth)

lemmas to_double_exact = to_double_frac [where j = 0, simplified]
  to_double_frac [where j = 1, simplified] to_double_frac [where j = 2, simplified]
  to_double_frac [where j = 3, simplified] to_double_frac [where j = 4, simplified]
  to_double_frac [where j = 5, simplified] to_double_frac [where j = 6, simplified]

text \<open>Rounding a value whose binary exponent \<open>k\<close> is known, in the normal range.\<close>

lemma to_float_at:
  assumes "2 powr real_of_int k \<le> \<bar>x\<bar>" "\<bar>x\<bar> < 2 powr real_of_int (k + 1)" "- 126 \<le> k"
  shows "to_float x = real_of_int (round_even (x / 2 powr real_of_int (k - 23)))
                        * 2 powr real_of_int (k - 23)"
proof -
  from assms(3) have "max (k - (int 24 - 1)) (- 149) = k - 23" by simp
  with fp_round_eval [OF assms(1,2), of 24 "- 149"] show ?thesis by (simp add: to_float_def)
qed

lemma to_double_at:
  assumes "2 powr real_of_int k \<le> \<bar>x\<bar>" "\<bar>x\<bar> < 2 powr real_of_int (k + 1)" "- 1022 \<le> k"
  shows "to_double x = real_of_int (round_even (x / 2 powr real_of_int (k - 52)))
                         * 2 powr real_of_int (k - 52)"
proof -
  from assms(3) have "max (k - (int 53 - 1)) (- 1074) = k - 52" by simp
  with fp_round_eval [OF assms(1,2), of 53 "- 1074"] show ?thesis by (simp add: to_double_def)
qed

text \<open>An even integer below \<open>2\<^sup>2\<^sup>5\<close> is a \<open>float\<close>.\<close>

lemma to_float_even:
  assumes "\<bar>m\<bar> < 2 ^ 24"
  shows "to_float (real_of_int (2 * m)) = real_of_int (2 * m)"
proof -
  have "real_of_int (2 * m) = real_of_int m * 2 powr real_of_int 1" by simp
  from fp_round_exact [OF this assms] show ?thesis by (simp add: to_float_def)
qed

lemma floor_neg_one: "\<lfloor>- 1 :: real\<rfloor> = - 1"
  using floor_of_int [of "- 1", where ?'a = real] by simp

lemma ceiling_neg_one: "\<lceil>- 1 :: real\<rceil> = - 1"
  using ceiling_of_int [of "- 1", where ?'a = real] by simp

section \<open>Batches\<close>










text \<open>
  C8. The close that takes the depth from 1 to 0 with a dirty rectangle of positive
  width calls \<open>notify_observers\<close> on the object in which the depth, the valid count, the
  write index and the width of the dirty rectangle are zero already: the answer of the
  call and the state in which it leaves the Python half are those of the call on that
  object. Whatever the call answers, that object is the one the close ends with; the
  run is aborted exactly when the call raised.
\<close>

theorem end_atomic_reset_first:
  assumes "atomic s = 1" and "rect_w (dirty_bbox s) > 0"
    and "r = s\<lparr>atomic := 0, tileMemoryValid := 0, tileMemoryWrite := 0,
               dirty_bbox := (dirty_bbox s)\<lparr>rect_w := 0\<rparr>\<rparr>"
    and "py_notify_observers P (py_state w) r (rect_x (dirty_bbox s)) (rect_y (dirty_bbox s))
           (rect_w (dirty_bbox s)) (rect_h (dirty_bbox s)) = (res, p')"
  shows "tileMemoryValid r = 0 \<and> tileMemoryWrite r = 0 \<and> rect_w (dirty_bbox r) = 0
       \<and> final_state (end_atomic P (s, w)) =
           (r, w\<lparr>py_state := p',
                 calls := calls w @
                   [NotifyObservers (rect_x (dirty_bbox s)) (rect_y (dirty_bbox s))
                      (rect_w (dirty_bbox s)) (rect_h (dirty_bbox s))]\<rparr>)
       \<and> (isl (end_atomic P (s, w)) \<longleftrightarrow> \<not> res)"
  using assms
  by (auto simp: end_atomic_def final_state_def Let_def split: prod.splits)

theorem end_atomic_reset_first_witness:
  "atomic open_surface = 1 \<and> rect_w (dirty_bbox open_surface) > 0
   \<and> py_notify_observers raising_python (py_state raising_world)
        (open_surface\<lparr>atomic := 0, tileMemoryValid := 0, tileMemoryWrite := 0,
           dirty_bbox := (dirty_bbox open_surface)\<lparr>rect_w := 0\<rparr>\<rparr>) 5 6 7 8
       = (False, Some (open_surface\<lparr>atomic := 0, tileMemoryValid := 0, tileMemoryWrite := 0,
                          dirty_bbox := (dirty_bbox open_surface)\<lparr>rect_w := 0\<rparr>\<rparr>))
   \<and> final_state (end_atomic raising_python (open_surface, raising_world)) =
       (open_surface\<lparr>atomic := 0, tileMemoryValid := 0, tileMemoryWrite := 0,
          dirty_bbox := (dirty_bbox open_surface)\<lparr>rect_w := 0\<rparr>\<rparr>,
        raising_world\<lparr>py_state :=
            Some (open_surface\<lparr>atomic := 0, tileMemoryValid := 0, tileMemoryWrite := 0,
                    dirty_bbox := (dirty_bbox open_surface)\<lparr>rect_w := 0\<rparr>\<rparr>),
          calls := [NotifyObservers 5 6 7 8]\<rparr>)
   \<and> isl (end_atomic raising_python (open_surface, raising_world))"
proof -
  have b: "atomic open_surface = 1" and c: "rect_w (dirty_bbox open_surface) > 0"
    and bb: "dirty_bbox open_surface = \<lparr>rect_x = 5, rect_y = 6, rect_w = 7, rect_h = 8\<rparr>"
    by (simp_all add: open_surface_def nested_surface_def)
  have n: "py_notify_observers raising_python (py_state raising_world)
        (open_surface\<lparr>atomic := 0, tileMemoryValid := 0, tileMemoryWrite := 0,
           dirty_bbox := (dirty_bbox open_surface)\<lparr>rect_w := 0\<rparr>\<rparr>)
        (rect_x (dirty_bbox open_surface)) (rect_y (dirty_bbox open_surface))
        (rect_w (dirty_bbox open_surface)) (rect_h (dirty_bbox open_surface))
       = (False, Some (open_surface\<lparr>atomic := 0, tileMemoryValid := 0, tileMemoryWrite := 0,
                          dirty_bbox := (dirty_bbox open_surface)\<lparr>rect_w := 0\<rparr>\<rparr>))"
    by (simp add: raising_python_def)
  from end_atomic_reset_first [OF b c refl n] b c n
  show ?thesis by (simp add: bb raising_world_def)
qed

section \<open>Degenerate dabs\<close>

text \<open>
  C3. A dab of the data model (each colour in \<open>[0, 1]\<close>) that has opacity 0, or radius
  below 0.1, or hardness 0: \<open>draw_dab\<close> returns \<open>false\<close>, and the object and the world,
  with every tile buffer and the dirty rectangle, are as before.
\<close>

theorem draw_dab_degenerate:
  assumes "0 \<le> color_r d \<and> color_r d \<le> 1"
    and "0 \<le> color_g d \<and> color_g d \<le> 1"
    and "0 \<le> color_b d \<and> color_b d \<le> 1"
    and "opaque d = 0 \<or> radius d < 0.1 \<or> hardness d = 0"
  shows "draw_dab P d (s, w) = Inr (False, s, w)"
  using assms tenth_le_to_double by (auto simp: draw_dab_def)

theorem draw_dab_degenerate_witness:
  "opaque black_dab = 0
   \<and> draw_dab good_python black_dab (open_surface, blank_world)
       = Inr (False, open_surface, blank_world)"
proof -
  have "0 \<le> color_r black_dab \<and> color_r black_dab \<le> 1"
    and "0 \<le> color_g black_dab \<and> color_g black_dab \<le> 1"
    and "0 \<le> color_b black_dab \<and> color_b black_dab \<le> 1"
    and o: "opaque black_dab = 0"
    by (simp_all add: black_dab_def)
  from draw_dab_degenerate [OF this(1-3), of good_python open_surface blank_world] o
  show ?thesis by simp
qed

text \<open>
  The frame half needs nothing of the colours: whether the call returns or stops at an
  assertion, a dab with opacity 0, or radius below 0.1, or hardness 0 leaves the object
  and the world as they were.
\<close>

lemma draw_dab_degenerate_frame:
  "opaque d = 0 \<or> radius d < 0.1 \<or> hardness d = 0
     \<Longrightarrow> final_state (draw_dab P d (s, w)) = (s, w)"
  using tenth_le_to_double by (auto simp: draw_dab_def final_state_def)

section \<open>The tile pointer cache\<close>

text \<open>
  C6. A read-only fetch that misses the cache leaves the object as it was, so the valid
  count, the write index and every entry are unchanged; the store is called once.
\<close>

theorem get_tile_memory_readonly_frame:
  assumes "scan_tileMemory (tileMemory s) [0 .. tileMemoryValid s - 1] tx ty = None"
    and "get_tile_memory P tx ty True (s, w) = (r, s', w')"
  shows "tileMemoryValid s' = tileMemoryValid s \<and> tileMemoryWrite s' = tileMemoryWrite s
         \<and> tileMemory s' = tileMemory s \<and> s' = s
         \<and> calls w' = calls w @ [GetTileMemory tx ty True]"
  using assms
  by (auto simp: get_tile_memory_def Let_def split: prod.splits option.splits)

theorem get_tile_memory_readonly_frame_witness:
  "scan_tileMemory (tileMemory blank_surface) [0 .. tileMemoryValid blank_surface - 1] 3 4 = None
   \<and> get_tile_memory good_python 3 4 True (blank_surface, blank_world)
       = (Some 0, blank_surface, blank_world\<lparr>calls := [GetTileMemory 3 4 True]\<rparr>)
   \<and> calls (blank_world\<lparr>calls := [GetTileMemory 3 4 True]\<rparr>)
       = calls blank_world @ [GetTileMemory 3 4 True]"
proof -
  have a: "scan_tileMemory (tileMemory blank_surface)
             [0 .. tileMemoryValid blank_surface - 1] 3 4 = None"
    by (simp add: blank_surface_def TiledSurface_new_def)
  have b: "get_tile_memory good_python 3 4 True (blank_surface, blank_world)
       = (Some 0, blank_surface, blank_world\<lparr>calls := [GetTileMemory 3 4 True]\<rparr>)"
    by (simp add: get_tile_memory_def a good_python_def blank_world_def)
  from get_tile_memory_readonly_frame [OF a b] a b show ?thesis by simp
qed

lemma scan_tileMemory_None:
  "scan_tileMemory tm ixs tx ty = None \<longleftrightarrow>
     (\<forall>i \<in> set ixs. \<not> (tm_tx (tm i) = tx \<and> tm_ty (tm i) = ty))"
  by (induction ixs) auto

text \<open>
  A hit returns the cached pointer and changes nothing, the write position included:
  how often a tile is found has no influence on which entry is overwritten next.
\<close>

lemma get_tile_memory_hit:
  "scan_tileMemory (tileMemory s) [0 .. tileMemoryValid s - 1] tx ty = Some p
     \<Longrightarrow> get_tile_memory P tx ty readonly (s, w) = (Some p, s, w)"
  by (simp add: get_tile_memory_def)

lemma get_tile_memory_valid_le:
  assumes "tileMemoryValid s \<le> 8" "get_tile_memory P tx ty ro (s, w) = (r, s', w')"
  shows "tileMemoryValid s' \<le> 8"
  using assms
  by (auto simp: get_tile_memory_def TILE_MEMORY_SIZE_def Let_def
      split: option.splits prod.splits if_splits)

lemma fetch_all_valid_le:
  "tileMemoryValid s \<le> 8 \<Longrightarrow> fetch_all P ts (s, w) = (rs, s', w') \<Longrightarrow> tileMemoryValid s' \<le> 8"
proof (induction ts arbitrary: s w rs)
  case Nil
  then show ?case by simp
next
  case (Cons t ts)
  obtain r s1 w1 where g: "get_tile_memory P (fst t) (snd t) False (s, w) = (r, s1, w1)"
    by (metis prod_cases3)
  obtain rs1 where f: "fetch_all P ts (s1, w1) = (rs1, s', w')"
    using Cons.prems(2) g by (auto split: prod.splits)
  from get_tile_memory_valid_le [OF Cons.prems(1) g] have "tileMemoryValid s1 \<le> 8" .
  from Cons.IH [OF this f] show ?case .
qed

lemma window_index:
  fixes n i :: int
  assumes "0 \<le> i" "i < min n 8"
  shows "\<exists>j. 0 \<le> j \<and> j < n \<and> n \<le> j + 8 \<and> j mod 8 = i"
proof (cases "n \<le> 8")
  case True
  with assms show ?thesis by (intro exI [of _ i]) simp
next
  case False
  define j where "j = n - 8 + (i - (n - 8)) mod 8"
  have m: "0 \<le> (i - (n - 8)) mod 8" "(i - (n - 8)) mod 8 < 8" by simp_all
  have "j mod 8 = i mod 8" unfolding j_def by (simp add: mod_simps)
  with assms have "j mod 8 = i" by simp
  moreover from m False have "0 \<le> j" "j < n" "n \<le> j + 8" unfolding j_def by linarith+
  ultimately show ?thesis by blast
qed

lemma mod8_distinct:
  fixes j n :: int
  assumes "j < n" "n + 1 \<le> j + 8"
  shows "j mod 8 \<noteq> n mod 8"
proof
  assume "j mod 8 = n mod 8"
  then have "(n - j) mod 8 = 0" by (metis mod_eq_dvd_iff dvd_eq_mod_eq_0)
  moreover from assms have "0 < n - j" "n - j < 8" by simp_all
  ultimately show False by simp
qed

lemma in_set_spec_cached:
  "t \<in> set (spec_cached pre) \<longleftrightarrow> (\<exists>j. length pre \<le> j + 8 \<and> j < length pre \<and> pre ! j = t)"
proof
  assume "t \<in> set (spec_cached pre)"
  then obtain k where k: "k < length pre - (length pre - 8)" "drop (length pre - 8) pre ! k = t"
    by (auto simp: spec_cached_def in_set_conv_nth)
  then have "pre ! (length pre - 8 + k) = t" by simp
  moreover from k(1) have "length pre \<le> (length pre - 8 + k) + 8" "length pre - 8 + k < length pre"
    by linarith+
  ultimately show "\<exists>j. length pre \<le> j + 8 \<and> j < length pre \<and> pre ! j = t" by blast
next
  assume "\<exists>j. length pre \<le> j + 8 \<and> j < length pre \<and> pre ! j = t"
  then obtain j where j: "length pre \<le> j + 8" "j < length pre" "pre ! j = t" by blast
  define k where "k = j - (length pre - 8)"
  from j have "k < length (drop (length pre - 8) pre)" "drop (length pre - 8) pre ! k = t"
    unfolding k_def by simp_all
  then show "t \<in> set (spec_cached pre)" unfolding spec_cached_def by (metis nth_mem)
qed

lemma cache_after_scan:
  assumes inv: "cache_after pre s"
  shows "scan_tileMemory (tileMemory s) [0 .. tileMemoryValid s - 1] (fst t) (snd t) = None
           \<longleftrightarrow> t \<notin> set (spec_cached pre)"
proof
  assume new: "t \<notin> set (spec_cached pre)"
  have "\<not> (tm_tx (tileMemory s i) = fst t \<and> tm_ty (tileMemory s i) = snd t)"
    if "i \<in> set [0 .. tileMemoryValid s - 1]" for i
  proof -
    from that inv have i: "0 \<le> i" "i < min (int (length pre)) 8"
      by (auto simp: cache_after_def)
    from window_index [OF i] obtain j where
      j: "0 \<le> j" "j < int (length pre)" "int (length pre) \<le> j + 8" "j mod 8 = i"
      by blast
    with inv have "(tm_tx (tileMemory s i), tm_ty (tileMemory s i)) = pre ! nat j"
      by (auto simp: cache_after_def)
    moreover from j have "length pre \<le> nat j + 8" "nat j < length pre" by linarith+
    then have "pre ! nat j \<in> set (spec_cached pre)" unfolding in_set_spec_cached by blast
    ultimately show ?thesis using new by (metis prod.collapse)
  qed
  then show "scan_tileMemory (tileMemory s) [0 .. tileMemoryValid s - 1] (fst t) (snd t) = None"
    by (simp only: scan_tileMemory_None) blast
next
  assume miss: "scan_tileMemory (tileMemory s) [0 .. tileMemoryValid s - 1] (fst t) (snd t) = None"
  show "t \<notin> set (spec_cached pre)"
  proof
    assume "t \<in> set (spec_cached pre)"
    then obtain j where j: "length pre \<le> j + 8" "j < length pre" "pre ! j = t"
      unfolding in_set_spec_cached by blast
    with inv have k: "(tm_tx (tileMemory s (int j mod 8)), tm_ty (tileMemory s (int j mod 8))) = t"
      by (auto simp: cache_after_def)
    from inv have v: "tileMemoryValid s = min (int (length pre)) 8" by (simp add: cache_after_def)
    have "0 \<le> int j mod 8" "int j mod 8 < 8" by simp_all
    moreover have "int j mod 8 \<le> int j" by (simp add: zmod_le_nonneg_dividend)
    ultimately have "int j mod 8 \<in> set [0 .. tileMemoryValid s - 1]"
      using v j(2) by auto
    with miss have "\<not> (tm_tx (tileMemory s (int j mod 8)) = fst t \<and> tm_ty (tileMemory s (int j mod 8)) = snd t)"
      by (simp only: scan_tileMemory_None) blast
    with k show False by auto
  qed
qed

lemma cache_after_insert:
  assumes inv: "cache_after pre s"
    and miss: "scan_tileMemory (tileMemory s) [0 .. tileMemoryValid s - 1] (fst t) (snd t) = None"
    and g: "get_tile_memory P (fst t) (snd t) False (s, w) = (Some a, s', w')"
  shows "cache_after (pre @ [t]) s' \<and> calls w' = calls w @ [store_call t]"
proof -
  let ?n = "int (length pre)"
  from inv have v: "tileMemoryValid s = min ?n 8" and wr: "tileMemoryWrite s = ?n mod 8"
    by (auto simp: cache_after_def)
  from g miss have s': "s' = s\<lparr>tileMemoryValid := (if tileMemoryValid s < 8 then tileMemoryValid s + 1 else tileMemoryValid s),
        tileMemory := (tileMemory s)(tileMemoryWrite s := \<lparr>tm_tx = fst t, tm_ty = snd t, tm_rgba_p = a\<rparr>),
        tileMemoryWrite := (tileMemoryWrite s + 1) mod 8\<rparr>"
    and c: "calls w' = calls w @ [store_call t]"
    by (auto simp: get_tile_memory_def TILE_MEMORY_SIZE_def Let_def store_call_def
        split: option.splits prod.splits if_splits)
  have 1: "tileMemoryValid s' = min (int (length (pre @ [t]))) 8"
    using v by (simp add: s')
  have "(?n mod 8 + 1) mod 8 = (?n + 1) mod 8" by (simp add: mod_simps)
  then have 2: "tileMemoryWrite s' = int (length (pre @ [t])) mod 8"
    using wr by (simp add: s' add.commute)
  have 3: "(tm_tx (tileMemory s' (j mod 8)), tm_ty (tileMemory s' (j mod 8))) = (pre @ [t]) ! nat j"
    if j: "0 \<le> j" "j < int (length (pre @ [t]))" "int (length (pre @ [t])) \<le> j + 8" for j
  proof (cases "j = ?n")
    case True
    then show ?thesis by (simp add: s' wr)
  next
    case False
    with j have lt: "j < ?n" and ge: "?n \<le> j + 8" and ge': "?n + 1 \<le> j + 8" by auto
    from lt ge' have "j mod 8 \<noteq> ?n mod 8" by (rule mod8_distinct)
    then have "tileMemory s' (j mod 8) = tileMemory s (j mod 8)"
      by (simp add: s' wr)
    moreover from inv j(1) lt ge
    have "(tm_tx (tileMemory s (j mod 8)), tm_ty (tileMemory s (j mod 8))) = pre ! nat j"
      by (simp add: cache_after_def)
    moreover from lt j(1) have "nat j < length pre" by linarith
    then have "(pre @ [t]) ! nat j = pre ! nat j"
      by (simp add: nth_append)
    ultimately show ?thesis by simp
  qed
  from 1 2 3 c show ?thesis unfolding cache_after_def by blast
qed

lemma spec_inserted_prefix: "\<exists>ys. spec_inserted ins ts = ins @ ys"
proof (induction ts arbitrary: ins)
  case Nil
  then show ?case by simp
next
  case (Cons t ts)
  show ?case
  proof (cases "t \<in> set (spec_cached ins)")
    case True
    with Cons.IH [of ins] show ?thesis by simp
  next
    case False
    from Cons.IH [of "ins @ [t]"] obtain ys where "spec_inserted (ins @ [t]) ts = (ins @ [t]) @ ys"
      by blast
    then have "spec_inserted (ins @ [t]) ts = ins @ (t # ys)" by simp
    with False show ?thesis by simp
  qed
qed

lemma fetch_all_spec_inserted:
  "cache_after ins s \<Longrightarrow> fetch_all P ts (s, w) = (rs, s', w') \<Longrightarrow> None \<notin> set rs
     \<Longrightarrow> cache_after (spec_inserted ins ts) s'
         \<and> calls w' = calls w @ map store_call (drop (length ins) (spec_inserted ins ts))"
proof (induction ts arbitrary: ins s w rs)
  case Nil
  then show ?case by simp
next
  case (Cons t ts)
  obtain r s1 w1 where g: "get_tile_memory P (fst t) (snd t) False (s, w) = (r, s1, w1)"
    by (metis prod_cases3)
  obtain rs1 where f: "fetch_all P ts (s1, w1) = (rs1, s', w')" and rs: "rs = r # rs1"
    using Cons.prems(2) g by (auto split: prod.splits)
  from rs Cons.prems(3) obtain a where r: "r = Some a" and rs1: "None \<notin> set rs1"
    by (cases r) auto
  show ?case
  proof (cases "t \<in> set (spec_cached ins)")
    case True
    with cache_after_scan [OF Cons.prems(1), of t] obtain p where
      "scan_tileMemory (tileMemory s) [0 .. tileMemoryValid s - 1] (fst t) (snd t) = Some p"
      by auto
    from get_tile_memory_hit [OF this, of P False w] g have e: "s1 = s" "w1 = w" by simp_all
    from f e have "fetch_all P ts (s, w) = (rs1, s', w')" by simp
    from Cons.IH [OF Cons.prems(1) this rs1] True show ?thesis by simp
  next
    case False
    with cache_after_scan [OF Cons.prems(1), of t]
    have miss: "scan_tileMemory (tileMemory s) [0 .. tileMemoryValid s - 1] (fst t) (snd t) = None"
      by simp
    from g r have g': "get_tile_memory P (fst t) (snd t) False (s, w) = (Some a, s1, w1)" by simp
    from cache_after_insert [OF Cons.prems(1) miss g']
    have i: "cache_after (ins @ [t]) s1" and c: "calls w1 = calls w @ [store_call t]" by blast+
    from Cons.IH [OF i f rs1]
    have 1: "cache_after (spec_inserted (ins @ [t]) ts) s'"
      and 2: "calls w' = calls w1 @ map store_call (drop (length (ins @ [t])) (spec_inserted (ins @ [t]) ts))"
      by blast+
    from spec_inserted_prefix [of "ins @ [t]" ts] obtain ys where
      ys: "spec_inserted (ins @ [t]) ts = (ins @ [t]) @ ys" by blast
    have "drop (length (ins @ [t])) ((ins @ [t]) @ ys) = ys"
      by (rule append_eq_conv_conj [THEN iffD1, THEN conjunct2, symmetric]) (rule refl)
    moreover have "drop (length ins) (ins @ (t # ys)) = t # ys"
      by (rule append_eq_conv_conj [THEN iffD1, THEN conjunct2, symmetric]) (rule refl)
    ultimately have "calls w' = calls w @ map store_call (drop (length ins) (spec_inserted (ins @ [t]) ts))"
      using 2 c ys by simp
    with 1 False show ?thesis by simp
  qed
qed

lemma spec_inserted_distinct: "distinct (ins @ ts) \<Longrightarrow> spec_inserted ins ts = ins @ ts"
proof (induction ts arbitrary: ins)
  case Nil
  then show ?case by simp
next
  case (Cons t ts)
  then have "t \<notin> set ins" by simp
  then have "t \<notin> set (spec_cached ins)" unfolding spec_cached_def by (metis in_set_dropD)
  moreover from Cons.prems have "distinct ((ins @ [t]) @ ts)" by simp
  ultimately show ?case using Cons.IH [of "ins @ [t]"] by simp
qed

lemma cache_after_empty:
  "tileMemoryValid s = 0 \<Longrightarrow> tileMemoryWrite s = 0 \<Longrightarrow> cache_after [] s"
  by (auto simp: cache_after_def)

text \<open>
  C2. A run of write-mode fetches that starts with an empty cache never leaves more than
  \<open>TILE_MEMORY_SIZE\<close> (8) valid entries. When the store serves every fetch it is asked
  for, the cache is the round-robin cache of the spec: the store is called for the
  tiles of \<open>spec_inserted\<close> and for no other fetch, the valid count and the write position
  are those of that many insertions, and the scan finds exactly the tiles of
  \<open>spec_cached\<close>, the newest eight inserted, however often a tile was fetched in between.
  So after up to eight fetches of pairwise distinct tiles the first tile is cached: a
  further fetch of it returns a pointer without a call of the store and leaves the object
  as it is, the write position included. After nine such fetches the scan no longer
  finds the first tile and a further write-mode fetch of it calls the store again, while
  each of the other eight tiles is still a hit.
\<close>

theorem cache_round_robin:
  assumes "tileMemoryValid s = 0" and "tileMemoryWrite s = 0"
    and "fetch_all P ts (s, w) = (rs, s', w')"
  shows "tileMemoryValid s' \<le> TILE_MEMORY_SIZE
       \<and> (None \<notin> set rs \<longrightarrow>
            tileMemoryValid s' = min (int (length (spec_inserted [] ts))) TILE_MEMORY_SIZE
            \<and> tileMemoryWrite s' = int (length (spec_inserted [] ts)) mod TILE_MEMORY_SIZE
            \<and> (\<forall>t. scan_tileMemory (tileMemory s') [0 .. tileMemoryValid s' - 1] (fst t) (snd t)
                      = None
                    \<longleftrightarrow> t \<notin> set (spec_cached (spec_inserted [] ts)))
            \<and> calls w' = calls w @ map store_call (spec_inserted [] ts))
       \<and> (None \<notin> set rs \<and> distinct ts \<and> ts \<noteq> [] \<and> length ts \<le> 8 \<longrightarrow>
            (\<exists>p. get_tile_memory P (fst (hd ts)) (snd (hd ts)) False (s', w') = (Some p, s', w')))
       \<and> (None \<notin> set rs \<and> distinct ts \<and> length ts = 9 \<longrightarrow>
            scan_tileMemory (tileMemory s') [0 .. tileMemoryValid s' - 1]
              (fst (hd ts)) (snd (hd ts)) = None
            \<and> calls (snd (snd (get_tile_memory P (fst (hd ts)) (snd (hd ts)) False (s', w'))))
                = calls w' @ [GetTileMemory (fst (hd ts)) (snd (hd ts)) False]
            \<and> (\<forall>t \<in> set (tl ts).
                  \<exists>p. get_tile_memory P (fst t) (snd t) False (s', w') = (Some p, s', w')))"
proof -
  have a: "tileMemoryValid s' \<le> TILE_MEMORY_SIZE"
    using fetch_all_valid_le [OF _ assms(3)] assms(1) by (simp add: TILE_MEMORY_SIZE_def)
  have inv: "cache_after (spec_inserted [] ts) s'"
    and cl: "calls w' = calls w @ map store_call (spec_inserted [] ts)"
    if "None \<notin> set rs"
    using fetch_all_spec_inserted [OF cache_after_empty [OF assms(1,2)] assms(3) that] by simp_all
  have hit: "\<exists>p. get_tile_memory P (fst t) (snd t) False (s', w') = (Some p, s', w')"
    if "None \<notin> set rs" "t \<in> set (spec_cached (spec_inserted [] ts))" for t
  proof -
    from cache_after_scan [OF inv [OF that(1)], of t] that(2) obtain p where
      "scan_tileMemory (tileMemory s') [0 .. tileMemoryValid s' - 1] (fst t) (snd t) = Some p"
      by auto
    from get_tile_memory_hit [OF this] show ?thesis by blast
  qed
  have b: "tileMemoryValid s' = min (int (length (spec_inserted [] ts))) TILE_MEMORY_SIZE
            \<and> tileMemoryWrite s' = int (length (spec_inserted [] ts)) mod TILE_MEMORY_SIZE
            \<and> (\<forall>t. scan_tileMemory (tileMemory s') [0 .. tileMemoryValid s' - 1] (fst t) (snd t)
                      = None
                    \<longleftrightarrow> t \<notin> set (spec_cached (spec_inserted [] ts)))
            \<and> calls w' = calls w @ map store_call (spec_inserted [] ts)"
    if "None \<notin> set rs"
    using inv [OF that] cl [OF that] cache_after_scan [OF inv [OF that]]
    by (simp add: cache_after_def TILE_MEMORY_SIZE_def)
  have c: "\<exists>p. get_tile_memory P (fst (hd ts)) (snd (hd ts)) False (s', w') = (Some p, s', w')"
    if "None \<notin> set rs" "distinct ts" "ts \<noteq> []" "length ts \<le> 8"
  proof -
    from that(2) have "spec_inserted [] ts = ts" using spec_inserted_distinct [of "[]" ts] by simp
    moreover from that(4) have "spec_cached ts = ts" by (simp add: spec_cached_def)
    ultimately have "hd ts \<in> set (spec_cached (spec_inserted [] ts))" using that(3) by simp
    from hit [OF that(1) this] show ?thesis .
  qed
  have d: "scan_tileMemory (tileMemory s') [0 .. tileMemoryValid s' - 1]
              (fst (hd ts)) (snd (hd ts)) = None
            \<and> calls (snd (snd (get_tile_memory P (fst (hd ts)) (snd (hd ts)) False (s', w'))))
                = calls w' @ [GetTileMemory (fst (hd ts)) (snd (hd ts)) False]
            \<and> (\<forall>t \<in> set (tl ts).
                  \<exists>p. get_tile_memory P (fst t) (snd t) False (s', w') = (Some p, s', w'))"
    if "None \<notin> set rs" "distinct ts" "length ts = 9"
  proof -
    from that(2) have rr: "spec_inserted [] ts = ts" using spec_inserted_distinct [of "[]" ts] by simp
    from that(3) have n: "spec_cached ts = tl ts" by (simp add: spec_cached_def drop_Suc)
    from that(3) have "ts \<noteq> []" by auto
    with that(2) have "hd ts \<notin> set (tl ts)" by (cases ts) auto
    with cache_after_scan [OF inv [OF that(1)], of "hd ts"] rr n
    have miss: "scan_tileMemory (tileMemory s') [0 .. tileMemoryValid s' - 1]
              (fst (hd ts)) (snd (hd ts)) = None"
      by simp
    then have "calls (snd (snd (get_tile_memory P (fst (hd ts)) (snd (hd ts)) False (s', w'))))
                = calls w' @ [GetTileMemory (fst (hd ts)) (snd (hd ts)) False]"
      by (simp add: get_tile_memory_def Let_def split: prod.splits option.splits)
    moreover have "\<exists>p. get_tile_memory P (fst t) (snd t) False (s', w') = (Some p, s', w')"
      if "t \<in> set (tl ts)" for t
      using hit [OF \<open>None \<notin> set rs\<close>, of t] that rr n by simp
    ultimately show ?thesis using miss by blast
  qed
  from b have b': "None \<notin> set rs \<longrightarrow>
            tileMemoryValid s' = min (int (length (spec_inserted [] ts))) TILE_MEMORY_SIZE
            \<and> tileMemoryWrite s' = int (length (spec_inserted [] ts)) mod TILE_MEMORY_SIZE
            \<and> (\<forall>t. scan_tileMemory (tileMemory s') [0 .. tileMemoryValid s' - 1] (fst t) (snd t)
                      = None
                    \<longleftrightarrow> t \<notin> set (spec_cached (spec_inserted [] ts)))
            \<and> calls w' = calls w @ map store_call (spec_inserted [] ts)"
    by (rule impI)
  from c have c': "None \<notin> set rs \<and> distinct ts \<and> ts \<noteq> [] \<and> length ts \<le> 8 \<longrightarrow>
            (\<exists>p. get_tile_memory P (fst (hd ts)) (snd (hd ts)) False (s', w') = (Some p, s', w'))"
    by (intro impI) (elim conjE)
  from d have d': "None \<notin> set rs \<and> distinct ts \<and> length ts = 9 \<longrightarrow>
            scan_tileMemory (tileMemory s') [0 .. tileMemoryValid s' - 1]
              (fst (hd ts)) (snd (hd ts)) = None
            \<and> calls (snd (snd (get_tile_memory P (fst (hd ts)) (snd (hd ts)) False (s', w'))))
                = calls w' @ [GetTileMemory (fst (hd ts)) (snd (hd ts)) False]
            \<and> (\<forall>t \<in> set (tl ts).
                  \<exists>p. get_tile_memory P (fst t) (snd t) False (s', w') = (Some p, s', w'))"
    by (intro impI) (elim conjE)
  show ?thesis
    by (rule conjI [OF a conjI [OF b' conjI [OF c' d']]])
qed

lemma fetch_all_nine_tiles:
  "fst (fetch_all good_python nine_tiles (blank_surface, blank_world))
     = [Some 0, Some 0, Some 0, Some 0, Some 0, Some 0, Some 0, Some 0, Some 0]"
  by (simp add: nine_tiles_def good_python_def blank_surface_def blank_world_def get_tile_memory_def
     TiledSurface_new_def TILE_MEMORY_SIZE_def upto_rec1)

lemma fetch_all_revisit_tiles:
  "fst (fetch_all good_python revisit_tiles (blank_surface, blank_world))
     = [Some 0, Some 0, Some 0, Some 0, Some 0, Some 0, Some 0, Some 0, Some 0, Some 0, Some 0,
        Some 0]"
  by (simp add: revisit_tiles_def good_python_def blank_surface_def blank_world_def
     get_tile_memory_def TiledSurface_new_def TILE_MEMORY_SIZE_def upto_rec1)

lemma spec_inserted_revisit_tiles: "spec_inserted [] revisit_tiles = nine_tiles"
  by (simp add: revisit_tiles_def nine_tiles_def spec_cached_def)

theorem cache_round_robin_witness:
  "tileMemoryValid blank_surface = 0 \<and> tileMemoryWrite blank_surface = 0
   \<and> length nine_tiles = 9 \<and> distinct nine_tiles
   \<and> None \<notin> set (fst (fetch_all good_python nine_tiles (blank_surface, blank_world)))
   \<and> tileMemoryValid (fst (snd (fetch_all good_python nine_tiles (blank_surface, blank_world))))
        \<le> TILE_MEMORY_SIZE
   \<and> calls (snd (snd (get_tile_memory good_python 0 0 False
                (snd (fetch_all good_python nine_tiles (blank_surface, blank_world))))))
       = calls (snd (snd (fetch_all good_python nine_tiles (blank_surface, blank_world))))
           @ [GetTileMemory 0 0 False]
   \<and> (1, 0) \<in> set (tl nine_tiles)
   \<and> fst (get_tile_memory good_python 1 0 False
            (snd (fetch_all good_python nine_tiles (blank_surface, blank_world)))) \<noteq> None
   \<and> snd (get_tile_memory good_python 1 0 False
            (snd (fetch_all good_python nine_tiles (blank_surface, blank_world))))
       = snd (fetch_all good_python nine_tiles (blank_surface, blank_world))
   \<and> None \<notin> set (fst (fetch_all good_python revisit_tiles (blank_surface, blank_world)))
   \<and> (0, 0) \<notin> set (spec_cached (spec_inserted [] revisit_tiles))
   \<and> scan_tileMemory
        (tileMemory (fst (snd (fetch_all good_python revisit_tiles (blank_surface, blank_world)))))
        [0 .. tileMemoryValid
                (fst (snd (fetch_all good_python revisit_tiles (blank_surface, blank_world)))) - 1]
        0 0 = None"
proof -
  obtain rs s' w' where
    f: "fetch_all good_python nine_tiles (blank_surface, blank_world) = (rs, s', w')"
    by (metis prod_cases3)
  obtain rs2 s2 w2 where
    f2: "fetch_all good_python revisit_tiles (blank_surface, blank_world) = (rs2, s2, w2)"
    by (metis prod_cases3)
  have v: "tileMemoryValid blank_surface = 0" and wr: "tileMemoryWrite blank_surface = 0"
    by (simp_all add: blank_surface_def TiledSurface_new_def)
  have l: "length nine_tiles = 9" and d: "distinct nine_tiles" and h: "hd nine_tiles = (0, 0)"
    and m: "(1, 0) \<in> set (tl nine_tiles)"
    by (simp_all add: nine_tiles_def)
  have rs: "None \<notin> set rs"
    using fetch_all_nine_tiles f by simp
  have rs2: "None \<notin> set rs2"
    using fetch_all_revisit_tiles f2 by simp
  have n: "(0, 0) \<notin> set (spec_cached (spec_inserted [] revisit_tiles))"
    by (simp add: spec_inserted_revisit_tiles nine_tiles_def spec_cached_def)
  from cache_round_robin [OF v wr f] l d rs h
  have 1: "tileMemoryValid s' \<le> TILE_MEMORY_SIZE"
    and 2: "calls (snd (snd (get_tile_memory good_python 0 0 False (s', w'))))
              = calls w' @ [GetTileMemory 0 0 False]"
    and 3: "\<forall>t \<in> set (tl nine_tiles).
              \<exists>p. get_tile_memory good_python (fst t) (snd t) False (s', w') = (Some p, s', w')"
    by simp_all
  from 3 m obtain p where "get_tile_memory good_python 1 0 False (s', w') = (Some p, s', w')"
    by fastforce
  then have 4: "fst (get_tile_memory good_python 1 0 False (s', w')) \<noteq> None"
    "snd (get_tile_memory good_python 1 0 False (s', w')) = (s', w')"
    by simp_all
  from cache_round_robin [OF v wr f2, THEN conjunct2, THEN conjunct1, THEN mp, OF rs2,
      THEN conjunct2, THEN conjunct2, THEN conjunct1, THEN spec, of "(0, 0)"] n
  have 5: "scan_tileMemory (tileMemory s2) [0 .. tileMemoryValid s2 - 1] 0 0 = None"
    by simp
  from v wr l d rs 1 2 m 4 rs2 n 5 show ?thesis
    by (simp add: f f2)
qed

section \<open>The pixel rectangle of a tile\<close>

lemma clip_rect_bounds:
  assumes "clip_rect xc yc r_fringe = (x0, y0, x1, y1)"
  shows "0 \<le> x0" "0 \<le> y0" "x1 \<le> 63" "y1 \<le> 63"
  using assms by (auto simp: clip_rect_def Let_def TILE_SIZE_def split: if_splits)

lemma pixel_idx_in_tile:
  assumes "0 \<le> yp" "yp \<le> 63" "0 \<le> xp" "xp \<le> 63"
  shows "in_tile (pixel_idx yp xp)"
proof -
  have "yp * 64 \<le> 63 * 64" using assms(2) by simp
  with assms show ?thesis by (simp add: in_tile_def pixel_idx_def TILE_SIZE_def)
qed

text \<open>
  A loop whose body may fail, as a fold with \<open>Option.bind\<close>: when every step keeps an
  invariant and does not fail, so does the loop.
\<close>

lemma fold_bind_invariant:
  assumes "\<And>x b. x \<in> set xs \<Longrightarrow> Q b \<Longrightarrow> \<exists>b'. f x b = Some b' \<and> Q b'" and "Q b"
  shows "\<exists>b'. fold (\<lambda>x r. Option.bind r (f x)) xs (Some b) = Some b' \<and> Q b'"
  using assms
proof (induction xs arbitrary: b)
  case Nil
  then show ?case by simp
next
  case (Cons x xs)
  from Cons.prems(1) [of x b] Cons.prems(2) obtain b1 where b1: "f x b = Some b1" "Q b1"
    by auto
  have "\<exists>b'. fold (\<lambda>x r. Option.bind r (f x)) xs (Some b1) = Some b' \<and> Q b'"
    using Cons.prems(1) b1(2) by (intro Cons.IH) simp_all
  with b1(1) show ?case by simp
qed

lemma fold_rows_invariant:
  assumes "\<And>y b. y \<in> set ys \<Longrightarrow> Q b \<Longrightarrow> \<exists>b'. g y (Some b) = Some b' \<and> Q b'" and "Q b"
  shows "\<exists>b'. fold g ys (Some b) = Some b' \<and> Q b'"
  using assms
proof (induction ys arbitrary: b)
  case Nil
  then show ?case by simp
next
  case (Cons y ys)
  from Cons.prems(1) [of y b] Cons.prems(2) obtain b1 where b1: "g y (Some b) = Some b1" "Q b1"
    by auto
  have "\<exists>b'. fold g ys (Some b1) = Some b' \<and> Q b'"
    using Cons.prems(1) b1(2) by (intro Cons.IH) simp_all
  with b1(1) show ?case by simp
qed

text \<open>
  The two nested loops over the clamped rectangle of any tile, for any position and
  radius: when the body keeps an invariant and does not fail at the pixels of
  \<open>[0, 63] \<times> [0, 63]\<close>, the loops keep it and do not fail.
\<close>

lemma tile_loops_invariant:
  assumes body: "\<And>yp xp b. 0 \<le> yp \<Longrightarrow> yp \<le> 63 \<Longrightarrow> 0 \<le> xp \<Longrightarrow> xp \<le> 63 \<Longrightarrow> Q b
                   \<Longrightarrow> \<exists>b'. f yp xp b = Some b' \<and> Q b'"
    and "Q b"
  shows "\<exists>b'. (case clip_rect xc yc r_fringe of
                 (x0, y0, x1, y1) \<Rightarrow>
                   fold (\<lambda>yp. fold (\<lambda>xp r. Option.bind r (f yp xp)) [x0 .. x1]) [y0 .. y1] (Some b))
              = Some b' \<and> Q b'"
proof -
  obtain x0 y0 x1 y1 where c: "clip_rect xc yc r_fringe = (x0, y0, x1, y1)"
    by (metis prod_cases4)
  note k = clip_rect_bounds [OF c]
  have "\<exists>b'. fold (\<lambda>yp. fold (\<lambda>xp r. Option.bind r (f yp xp)) [x0 .. x1]) [y0 .. y1] (Some b)
              = Some b' \<and> Q b'"
  proof (rule fold_rows_invariant)
    show "Q b" by fact
    fix yp b1
    assume yp: "yp \<in> set [y0 .. y1]" and q: "Q b1"
    from yp k have y: "0 \<le> yp" "yp \<le> 63" by simp_all
    show "\<exists>b'. fold (\<lambda>xp r. Option.bind r (f yp xp)) [x0 .. x1] (Some b1) = Some b' \<and> Q b'"
    proof (rule fold_bind_invariant)
      show "Q b1" by fact
      fix xp b2
      assume xp: "xp \<in> set [x0 .. x1]" and q2: "Q b2"
      from xp k have "0 \<le> xp" "xp \<le> 63" by simp_all
      with y q2 show "\<exists>b'. f yp xp b2 = Some b' \<and> Q b'" by (intro body)
    qed
  qed
  with c show ?thesis by simp
qed

lemma draw_pixel_in_bounds:
  assumes "0 \<le> yp" "yp \<le> 63" "0 \<le> xp" "xp \<le> 63"
  shows "\<exists>b'. draw_pixel d xc yy yp xp b = Some b'"
  using pixel_idx_in_tile [OF assms] by (simp add: draw_pixel_def Let_def split: option.splits)

lemma sample_pixel_in_bounds:
  assumes "0 \<le> yp" "yp \<le> 63" "0 \<le> xp" "xp \<le> 63"
  shows "\<exists>a'. sample_pixel rad xc yy yp xp rgba_p acc = Some a'"
  using pixel_idx_in_tile [OF assms] by (simp add: sample_pixel_def Let_def split: option.splits)

lemma draw_tile_in_bounds: "\<exists>b'. draw_tile d tx ty rgba_p = Some b'"
proof -
  have "\<exists>b'. (case clip_rect xc yc r_fringe of
                 (x0, y0, x1, y1) \<Rightarrow>
                   fold (\<lambda>yp. fold (\<lambda>xp r. Option.bind r (draw_pixel d xc (row_yy yc yp) yp xp))
                                [x0 .. x1]) [y0 .. y1] (Some rgba_p))
              = Some b' \<and> True" for xc yc r_fringe
    by (rule tile_loops_invariant) (simp_all add: draw_pixel_in_bounds)
  then show ?thesis by (simp add: draw_tile_def Let_def)
qed

lemma sample_tile_in_bounds: "\<exists>a'. sample_tile x y rad tx ty rgba_p acc = Some a'"
proof -
  have "\<exists>a'. (case clip_rect xc yc r_fringe of
                 (x0, y0, x1, y1) \<Rightarrow>
                   fold (\<lambda>yp. fold (\<lambda>xp r. Option.bind r
                                       (sample_pixel rad xc (row_yy yc yp) yp xp rgba_p))
                                [x0 .. x1]) [y0 .. y1] (Some acc))
              = Some a' \<and> True" for xc yc r_fringe
    by (rule tile_loops_invariant) (simp_all add: sample_pixel_in_bounds)
  then show ?thesis by (simp add: sample_tile_def Let_def)
qed

lemma draw_tiles_in_bounds: "draw_tiles P d ts sw \<noteq> Inl (OutOfBounds, sw')"
proof (induction ts arbitrary: sw)
  case Nil
  then show ?case by simp
next
  case (Cons t ts)
  obtain p s1 w1 where g: "get_tile_memory P (fst t) (snd t) False sw = (p, s1, w1)"
    by (metis prod_cases3)
  show ?case
  proof (cases p)
    case None
    with g show ?thesis by simp
  next
    case (Some rgba_p)
    from draw_tile_in_bounds obtain b where
      "draw_tile d (fst t) (snd t) (heap w1 rgba_p) = Some b" by blast
    with g Some Cons.IH show ?thesis by simp
  qed
qed

lemma sample_tiles_in_bounds: "sample_tiles P x y rad ts acc sw \<noteq> Inl (OutOfBounds, sw')"
proof (induction ts arbitrary: acc sw)
  case Nil
  then show ?case by simp
next
  case (Cons t ts)
  obtain p s1 w1 where g: "get_tile_memory P (fst t) (snd t) True sw = (p, s1, w1)"
    by (metis prod_cases3)
  show ?case
  proof (cases p)
    case None
    with g show ?thesis by simp
  next
    case (Some rgba_p)
    from sample_tile_in_bounds obtain a where
      "sample_tile x y rad (fst t) (snd t) (heap w1 rgba_p) acc = Some a" by blast
    with g Some Cons.IH show ?thesis by simp
  qed
qed

lemma draw_dab_in_bounds: "draw_dab P d sw \<noteq> Inl (OutOfBounds, sw')"
  using draw_tiles_in_bounds [of P d _ sw sw']
  by (auto simp: draw_dab_def Let_def split: sum.splits prod.splits bool.splits)

lemma get_color_in_bounds: "get_color P x y rad sw \<noteq> Inl (OutOfBounds, sw')"
  using sample_tiles_in_bounds [of P x y rad _ _ sw sw']
  by (auto simp: get_color_def Let_def split: sum.splits prod.splits option.splits if_splits)

section \<open>A tile that the dab does not reach\<close>

text \<open>
  In single precision the tile range of a dab can hold a tile that the dab does not
  reach. At \<open>x = 2\<^sup>2\<^sup>4 + 60\<close> and radius 2 the sum \<open>x + r_fringe = 16777279\<close> is rounded to
  16777280, the left edge of tile column 262145. In that column \<open>xc = - 4\<close>, and the
  clamped rectangle is empty, with \<open>x1 = - 1\<close>: no pixel is visited.
\<close>

lemma to_float_far_right: "to_float 16777279 = 16777280"
proof -
  have "to_float 16777279 = real_of_int (round_even (16777279 / 2 powr real_of_int (24 - 23)))
                              * 2 powr real_of_int (24 - 23)"
    by (rule to_float_at) simp_all
  also have "\<dots> = 16777280"
    by (simp add: round_even_def Let_def)
  finally show ?thesis .
qed

lemma to_float_far_left: "to_float 16777273 = 16777272"
proof -
  have "to_float 16777273 = real_of_int (round_even (16777273 / 2 powr real_of_int (24 - 23)))
                              * 2 powr real_of_int (24 - 23)"
    by (rule to_float_at) simp_all
  also have "\<dots> = 16777272"
    by (simp add: round_even_def Let_def)
  finally show ?thesis .
qed

lemma tile_range_far:
  "tile_range (dab_x far_dab) (dab_y far_dab) (to_float (radius far_dab + 1))
     = [(262144, - 1), (262145, - 1), (262144, 0), (262145, 0)]"
proof -
  have r: "to_float (radius far_dab + 1) = 3"
    by (simp add: far_dab_def to_float_exact)
  have x: "to_float (dab_x far_dab - 3) = 16777272" "to_float (dab_x far_dab + 3) = 16777280"
    by (simp_all add: far_dab_def to_float_far_left to_float_far_right)
  have y: "to_float (dab_y far_dab - 3) = - (1 / 2)" "to_float (dab_y far_dab + 3) = 11 / 2"
    by (simp_all add: far_dab_def to_float_exact)
  have t: "to_int (real_of_int \<lfloor>to_double (real_of_int \<lfloor>16777272 :: real\<rfloor>
             / real_of_int TILE_SIZE)\<rfloor>) = 262144"
    "to_int (real_of_int \<lfloor>to_double (real_of_int \<lfloor>16777280 :: real\<rfloor>
             / real_of_int TILE_SIZE)\<rfloor>) = 262145"
    "to_int (real_of_int \<lfloor>to_double (real_of_int \<lfloor>- (1 / 2) :: real\<rfloor>
             / real_of_int TILE_SIZE)\<rfloor>) = - 1"
    "to_int (real_of_int \<lfloor>to_double (real_of_int \<lfloor>11 / 2 :: real\<rfloor>
             / real_of_int TILE_SIZE)\<rfloor>) = 0"
    by (simp_all add: TILE_SIZE_def to_double_exact to_int_def truncate_real_def floor_neg_one
        ceiling_neg_one)
  show ?thesis
    by (simp only: tile_range_def Let_def r x y t) (simp add: upto_rec1)
qed

lemma clip_rect_far:
  "clip_rect (to_float (dab_x far_dab - to_float (real_of_int (int32 (262145 * TILE_SIZE)))))
     (to_float (dab_y far_dab - to_float (real_of_int (int32 (0 * TILE_SIZE)))))
     (to_float (radius far_dab + 1))
     = (0, 0, - 1, 6)"
proof -
  have r: "to_float (radius far_dab + 1) = 3"
    by (simp add: far_dab_def to_float_exact)
  have i: "int32 (262145 * TILE_SIZE) = 2 * 8388640" "int32 (0 * TILE_SIZE) = 0"
    by (simp_all add: int32_def TILE_SIZE_def)
  have e: "to_float (real_of_int (2 * 8388640)) = 16777280"
    by (subst to_float_even) simp_all
  have x: "to_float (dab_x far_dab - 16777280) = - 4"
    by (simp add: far_dab_def to_float_exact)
  have y: "to_float (dab_y far_dab - to_float (real_of_int 0)) = 5 / 2"
    by (simp add: far_dab_def to_float_exact to_float_0)
  show ?thesis
    by (simp only: r i e x y)
      (simp add: clip_rect_def Let_def TILE_SIZE_def to_float_exact to_int_def truncate_real_def
        floor_neg_one ceiling_neg_one)
qed

text \<open>
  C10. For every position and radius of a dab and every tile, so for every tile of the
  mapped range: the clamped rectangle of \<open>draw_dab\<close> and \<open>get_color\<close> starts at a column and
  a row of at least 0 and ends at a column and a row of at most \<open>TILE_SIZE - 1\<close>; when it
  has a pixel, its four bounds are in \<open>[0, TILE_SIZE - 1]\<close>; every pixel \<open>(xp, yp)\<close> of it
  has both coordinates in \<open>[0, TILE_SIZE - 1]\<close>, and the four elements \<open>idx\<close> to \<open>idx + 3\<close>
  of such a pixel are elements of the tile buffer. The loops of \<open>draw_dab\<close> and \<open>get_color\<close>
  over a tile make no access outside the buffer, and no call of \<open>draw_dab\<close> or \<open>get_color\<close>
  ends with one. A rectangle without a pixel may end below 0, as in \<open>clip_rect_far\<close>.
\<close>

theorem tile_loops_in_bounds:
  "(\<forall>x0 y0 x1 y1. clip_rect xc yc r_fringe = (x0, y0, x1, y1) \<longrightarrow>
      0 \<le> x0 \<and> 0 \<le> y0 \<and> x1 \<le> TILE_SIZE - 1 \<and> y1 \<le> TILE_SIZE - 1
      \<and> (x0 \<le> x1 \<and> y0 \<le> y1 \<longrightarrow>
            0 \<le> x1 \<and> 0 \<le> y1 \<and> x0 \<le> TILE_SIZE - 1 \<and> y0 \<le> TILE_SIZE - 1)
      \<and> (\<forall>yp xp. y0 \<le> yp \<and> yp \<le> y1 \<and> x0 \<le> xp \<and> xp \<le> x1 \<longrightarrow>
            0 \<le> yp \<and> yp \<le> TILE_SIZE - 1 \<and> 0 \<le> xp \<and> xp \<le> TILE_SIZE - 1
            \<and> 0 \<le> pixel_idx yp xp \<and> pixel_idx yp xp + 3 < TILE_SIZE * TILE_SIZE * 4))
   \<and> draw_tile d tx ty rgba_p \<noteq> None
   \<and> sample_tile x y rad tx ty rgba_p acc \<noteq> None
   \<and> draw_dab P d sw \<noteq> Inl (OutOfBounds, sw')
   \<and> get_color P x y rad sw \<noteq> Inl (OutOfBounds, sw')"
proof -
  have 1: "0 \<le> x0 \<and> 0 \<le> y0 \<and> x1 \<le> TILE_SIZE - 1 \<and> y1 \<le> TILE_SIZE - 1
      \<and> (x0 \<le> x1 \<and> y0 \<le> y1 \<longrightarrow>
            0 \<le> x1 \<and> 0 \<le> y1 \<and> x0 \<le> TILE_SIZE - 1 \<and> y0 \<le> TILE_SIZE - 1)
      \<and> (\<forall>yp xp. y0 \<le> yp \<and> yp \<le> y1 \<and> x0 \<le> xp \<and> xp \<le> x1 \<longrightarrow>
            0 \<le> yp \<and> yp \<le> TILE_SIZE - 1 \<and> 0 \<le> xp \<and> xp \<le> TILE_SIZE - 1
            \<and> 0 \<le> pixel_idx yp xp \<and> pixel_idx yp xp + 3 < TILE_SIZE * TILE_SIZE * 4)"
    if c: "clip_rect xc yc r_fringe = (x0, y0, x1, y1)" for x0 y0 x1 y1
  proof -
    note k = clip_rect_bounds [OF c]
    have "0 \<le> yp \<and> yp \<le> TILE_SIZE - 1 \<and> 0 \<le> xp \<and> xp \<le> TILE_SIZE - 1
            \<and> 0 \<le> pixel_idx yp xp \<and> pixel_idx yp xp + 3 < TILE_SIZE * TILE_SIZE * 4"
      if "y0 \<le> yp" "yp \<le> y1" "x0 \<le> xp" "xp \<le> x1" for yp xp
    proof -
      from that k have r: "0 \<le> yp" "yp \<le> 63" "0 \<le> xp" "xp \<le> 63" by linarith+
      from pixel_idx_in_tile [OF r] r show ?thesis by (simp add: in_tile_def TILE_SIZE_def)
    qed
    with k show ?thesis by (simp add: TILE_SIZE_def)
  qed
  from draw_tile_in_bounds [of d tx ty rgba_p] have 2: "draw_tile d tx ty rgba_p \<noteq> None"
    by auto
  from sample_tile_in_bounds [of x y rad tx ty rgba_p acc]
  have 3: "sample_tile x y rad tx ty rgba_p acc \<noteq> None"
    by auto
  have q1: "\<forall>x0 y0 x1 y1. clip_rect xc yc r_fringe = (x0, y0, x1, y1) \<longrightarrow>
      0 \<le> x0 \<and> 0 \<le> y0 \<and> x1 \<le> TILE_SIZE - 1 \<and> y1 \<le> TILE_SIZE - 1
      \<and> (x0 \<le> x1 \<and> y0 \<le> y1 \<longrightarrow>
            0 \<le> x1 \<and> 0 \<le> y1 \<and> x0 \<le> TILE_SIZE - 1 \<and> y0 \<le> TILE_SIZE - 1)
      \<and> (\<forall>yp xp. y0 \<le> yp \<and> yp \<le> y1 \<and> x0 \<le> xp \<and> xp \<le> x1 \<longrightarrow>
            0 \<le> yp \<and> yp \<le> TILE_SIZE - 1 \<and> 0 \<le> xp \<and> xp \<le> TILE_SIZE - 1
            \<and> 0 \<le> pixel_idx yp xp \<and> pixel_idx yp xp + 3 < TILE_SIZE * TILE_SIZE * 4)"
    by (intro allI impI) (rule 1)
  show ?thesis
    by (rule conjI [OF q1 conjI [OF 2 conjI [OF 3 conjI
          [OF draw_dab_in_bounds get_color_in_bounds]]]])
qed

theorem tile_loops_in_bounds_witness:
  "clip_rect (127 / 2) (5 / 2) (3 / 2) = (62, 1, 63, 4)
   \<and> (0 :: int) \<le> 62 \<and> (0 :: int) \<le> 1 \<and> 63 \<le> TILE_SIZE - 1 \<and> 4 \<le> TILE_SIZE - 1
   \<and> 0 \<le> pixel_idx 4 63 \<and> pixel_idx 4 63 + 3 < TILE_SIZE * TILE_SIZE * 4
   \<and> draw_tile edge_dab 0 0 (\<lambda>i. 0) \<noteq> None
   \<and> draw_dab good_python edge_dab (open_surface, blank_world)
        \<noteq> Inl (OutOfBounds, open_surface, blank_world)"
proof -
  have c: "clip_rect (127 / 2) (5 / 2) (3 / 2) = (62, 1, 63, 4)"
    by (simp add: clip_rect_def TILE_SIZE_def Let_def to_float_exact to_int_def truncate_real_def)
  note t = tile_loops_in_bounds [where xc = "127 / 2" and yc = "5 / 2" and r_fringe = "3 / 2"
      and d = edge_dab and tx = 0 and ty = 0 and rgba_p = "\<lambda>i. 0" and P = good_python
      and sw = "(open_surface, blank_world)" and sw' = "(open_surface, blank_world)"]
  note k = t [THEN conjunct1, THEN spec, THEN spec, THEN spec, THEN spec, THEN mp, OF c]
  from k have 1: "(0 :: int) \<le> 62 \<and> (0 :: int) \<le> 1 \<and> 63 \<le> TILE_SIZE - 1 \<and> 4 \<le> TILE_SIZE - 1"
    by simp
  from k [THEN conjunct2, THEN conjunct2, THEN conjunct2, THEN conjunct2, THEN conjunct2,
      THEN spec, THEN spec, of 4 63]
  have 2: "0 \<le> pixel_idx 4 63 \<and> pixel_idx 4 63 + 3 < TILE_SIZE * TILE_SIZE * 4"
    by simp
  note 3 = t [THEN conjunct2, THEN conjunct1]
  note 4 = t [THEN conjunct2, THEN conjunct2, THEN conjunct2, THEN conjunct1]
  show ?thesis
    by (rule conjI [OF c conjI [OF 1 [THEN conjunct1] conjI [OF 1 [THEN conjunct2, THEN conjunct1]
          conjI [OF 1 [THEN conjunct2, THEN conjunct2, THEN conjunct1]
          conjI [OF 1 [THEN conjunct2, THEN conjunct2, THEN conjunct2]
          conjI [OF 2 [THEN conjunct1] conjI [OF 2 [THEN conjunct2] conjI [OF 3 4]]]]]]]])
qed

section \<open>Word arithmetic\<close>

lemma unat_8_lt: "unat (x :: 8 word) < 256"
  using unsigned_less [of x, where ?'a = nat] by simp

lemma unat_16_lt: "unat (x :: 16 word) < 65536"
  using unsigned_less [of x, where ?'a = nat] by simp

lemma unat_ucast_up_16: "unat (ucast (x :: 16 word) :: 32 word) = unat x"
  using unat_16_lt [of x] by (simp add: unsigned_ucast_eq take_bit_nat_eq_self)

lemma unat_ucast_up_8: "unat (ucast (x :: 8 word) :: 32 word) = unat x"
  using unat_8_lt [of x] by (simp add: unsigned_ucast_eq take_bit_nat_eq_self)

lemma unat_ucast_down_16:
  "unat (x :: 32 word) < 2 ^ 16 \<Longrightarrow> unat (ucast x :: 16 word) = unat x"
  by (simp add: unsigned_ucast_eq take_bit_nat_eq_self)

lemma unat_ucast_down_8:
  "unat (x :: 32 word) < 2 ^ 8 \<Longrightarrow> unat (ucast x :: 8 word) = unat x"
  by (simp add: unsigned_ucast_eq take_bit_nat_eq_self)

lemma unat_mult_32:
  "unat (x :: 32 word) * unat y < 2 ^ 32 \<Longrightarrow> unat (x * y) = unat x * unat y"
  using unat_mult_lem [of x y] by simp

lemma unat_add_32:
  "unat (x :: 32 word) + unat y < 2 ^ 32 \<Longrightarrow> unat (x + y) = unat x + unat y"
  using unat_add_lem [of x y] by simp

lemma unat_2p15: "unat (2 ^ 15 :: 32 word) = 2 ^ 15"
  by simp

lemma unat_word_of_int_32:
  "0 \<le> k \<Longrightarrow> k < 2 ^ 32 \<Longrightarrow> unat (word_of_int k :: 32 word) = nat k"
  by (simp add: unat_eq_nat_uint uint_word_of_int)

section \<open>Flattening a transparent tile\<close>

lemma flatten_channel_transparent:
  "(ucast ((ucast (0 :: 16 word) * 255 + (2 ^ 15 - ucast (0 :: 16 word)) * ucast (d :: 8 word))
      div (2 ^ 15 :: 32 word)) :: 8 word) = d"
proof -
  have m: "unat ((2 ^ 15 :: 32 word) * ucast d) = 2 ^ 15 * unat d"
    using unat_8_lt [of d] by (subst unat_mult_32) (simp_all add: unat_ucast_up_8)
  have "unat (((2 ^ 15 :: 32 word) * ucast d) div 2 ^ 15) = unat d"
    by (simp only: unat_div m unat_2p15) simp
  then have "unat (ucast (((2 ^ 15 :: 32 word) * ucast d) div 2 ^ 15) :: 8 word) = unat d"
    using unat_8_lt [of d] by (subst unat_ucast_down_8) simp_all
  then show ?thesis by (simp add: word_unat_eq_iff)
qed

lemma composite_pixel_transparent:
  assumes "transparent_at src sp"
  shows "composite_pixel src sp dp dst = dst"
proof -
  from assms have z: "src (sp + 0) = 0" "src (sp + 1) = 0" "src (sp + 2) = 0" "src (sp + 3) = 0"
    by (simp_all only: transparent_at_def)
  show ?thesis
    by (simp only: composite_pixel_def Let_def z flatten_channel_transparent fun_upd_triv)
qed

lemma composite_row_transparent:
  "(\<And>x. i \<le> x \<Longrightarrow> x \<le> j \<Longrightarrow> transparent_at src (sp + 4 * (x - i))) \<Longrightarrow>
   fold (\<lambda>x (src_p, dst_p, dst). (src_p + 4, dst_p + 3, composite_pixel src src_p dst_p dst))
     [i .. j] (sp, dp, dst)
   = (sp + 4 * max 0 (j - i + 1), dp + 3 * max 0 (j - i + 1), dst)"
proof (induction i j arbitrary: sp dp rule: upto.induct)
  case (1 i j)
  show ?case
  proof (cases "i \<le> j")
    case False
    then show ?thesis by simp
  next
    case True
    have h: "transparent_at src sp"
      using "1.prems" [of i] True by simp
    have t: "transparent_at src (sp + 4 + 4 * (x - (i + 1)))" if "i + 1 \<le> x" "x \<le> j" for x
    proof -
      have "sp + 4 + 4 * (x - (i + 1)) = sp + 4 * (x - i)" by simp
      with "1.prems" [of x] that show ?thesis by simp
    qed
    have "fold (\<lambda>x (src_p, dst_p, dst). (src_p + 4, dst_p + 3, composite_pixel src src_p dst_p dst))
            [i + 1 .. j] (sp + 4, dp + 3, dst)
          = (sp + 4 + 4 * max 0 (j - (i + 1) + 1), dp + 3 + 3 * max 0 (j - (i + 1) + 1), dst)"
      by (rule "1.IH" [OF True t])
    with True h show ?thesis
      by (simp add: upto_rec1 composite_pixel_transparent)
  qed
qed

lemma composite_row_eq:
  assumes "\<And>x. 0 \<le> x \<Longrightarrow> x \<le> 63 \<Longrightarrow> transparent_at src (sp + 4 * x)"
  shows "composite_row src (sp, dp, dst) = (sp + 256, dp + 192, dst)"
  using composite_row_transparent [of 0 63 src sp dp dst] assms
  by (simp add: composite_row_def TILE_SIZE_def)

lemma composite_rows_transparent:
  "(\<And>y x. i \<le> y \<Longrightarrow> y \<le> j \<Longrightarrow> 0 \<le> x \<Longrightarrow> x \<le> 63
      \<Longrightarrow> transparent_at src (sp + 256 * (y - i) + 4 * x)) \<Longrightarrow>
   fold (\<lambda>y (src_p, p, dst).
           case composite_row src (src_p, p, dst) of
             (src_p', dst_p', dst') \<Rightarrow> (src_p', p + stride, dst'))
     [i .. j] (sp, p0, dst)
   = (sp + 256 * max 0 (j - i + 1), p0 + stride * max 0 (j - i + 1), dst)"
proof (induction i j arbitrary: sp p0 rule: upto.induct)
  case (1 i j)
  show ?case
  proof (cases "i \<le> j")
    case False
    then show ?thesis by simp
  next
    case True
    have h: "composite_row src (sp, p0, dst) = (sp + 256, p0 + 192, dst)"
      using "1.prems" [of i] True by (intro composite_row_eq) simp
    have t: "transparent_at src (sp + 256 + 256 * (y - (i + 1)) + 4 * x)"
      if "i + 1 \<le> y" "y \<le> j" "0 \<le> x" "x \<le> 63" for y x
    proof -
      have "sp + 256 + 256 * (y - (i + 1)) + 4 * x = sp + 256 * (y - i) + 4 * x" by simp
      with "1.prems" [of y x] that show ?thesis by simp
    qed
    have "fold (\<lambda>y (src_p, p, dst).
           case composite_row src (src_p, p, dst) of
             (src_p', dst_p', dst') \<Rightarrow> (src_p', p + stride, dst'))
            [i + 1 .. j] (sp + 256, p0 + stride, dst)
          = (sp + 256 + 256 * max 0 (j - (i + 1) + 1),
             p0 + stride + stride * max 0 (j - (i + 1) + 1), dst)"
      by (rule "1.IH" [OF True t])
    with True h show ?thesis
      by (simp add: upto_rec1 algebra_simps max_def)
  qed
qed

lemma transparent_tile:
  assumes "tile_ok src" "alpha_zero src" "0 \<le> y" "y \<le> 63" "0 \<le> x" "x \<le> 63"
  shows "transparent_at src (256 * y + 4 * x)"
proof -
  have i: "256 * y + 4 * x = pixel_idx y x"
    by (simp add: pixel_idx_def TILE_SIZE_def)
  from assms have a: "src (pixel_idx y x + 3) = 0"
    by (simp add: alpha_zero_def TILE_SIZE_def)
  from assms have "pixel_ok src (pixel_idx y x)"
    by (simp add: tile_ok_def TILE_SIZE_def)
  with a have "unat (src (pixel_idx y x + 0)) = 0" "unat (src (pixel_idx y x + 1)) = 0"
    "unat (src (pixel_idx y x + 2)) = 0"
    by (simp_all add: pixel_ok_def)
  then have "src (pixel_idx y x + 0) = 0" "src (pixel_idx y x + 1) = 0"
    "src (pixel_idx y x + 2) = 0"
    by (simp_all only: unat_eq_0)
  with a show ?thesis by (simp only: i transparent_at_def)
qed

text \<open>
  C7. For every source tile of the data model (premultiplied: channels at most
  \<open>2 ^ 15\<close>, no colour channel above alpha) whose alpha channel is 0 at every pixel, every
  destination buffer and every row stride, \<open>composite_tile_over_rgb8\<close> leaves the
  destination as it was.
\<close>

theorem flatten_transparent:
  assumes "tile_ok src" and "alpha_zero src"
  shows "composite_tile_over_rgb8 src stride dst = dst"
proof -
  have "fold (\<lambda>y (src_p, p, dst).
           case composite_row src (src_p, p, dst) of
             (src_p', dst_p', dst') \<Rightarrow> (src_p', p + stride, dst'))
     [0 .. 63] (0, 0, dst)
   = (0 + 256 * max 0 (63 - 0 + 1), 0 + stride * max 0 (63 - 0 + 1), dst)"
    by (rule composite_rows_transparent) (simp add: transparent_tile [OF assms])
  then show ?thesis
    by (simp add: composite_tile_over_rgb8_def TILE_SIZE_def)
qed

theorem flatten_transparent_witness:
  "tile_ok (\<lambda>i. 0) \<and> alpha_zero (\<lambda>i. 0)
   \<and> composite_tile_over_rgb8 (\<lambda>i. 0) 192 (\<lambda>i. 7) = (\<lambda>i. 7)"
proof -
  have a: "tile_ok (\<lambda>i. 0)" by (simp add: tile_ok_def pixel_ok_def)
  have b: "alpha_zero (\<lambda>i. 0)" by (simp add: alpha_zero_def)
  from flatten_transparent [OF a b, of 192 "\<lambda>i. 7"] a b show ?thesis by simp
qed

section \<open>The opacity of a pixel in single precision\<close>

text \<open>
  The error of one rounding to \<open>float\<close>: at most the fraction \<open>2\<^sup>-\<^sup>2\<^sup>4\<close> of the exact value,
  or half of the smallest positive \<open>float\<close> where the result is subnormal.
\<close>

lemma tiny_bounds: "0 \<le> tiny" "tiny \<le> 1 / 1152921504606846976"
  by (simp_all add: tiny_def)

lemma to_float_near: "\<bar>to_float x - x\<bar> \<le> \<bar>x\<bar> / 16777216 + tiny"
  using to_float_error [of x] by (simp add: tiny_def)

text \<open>Bounds of a rounded value from bounds of the exact one.\<close>

lemma to_float_le:
  assumes "x \<le> B" "0 \<le> B"
  shows "to_float x \<le> B + B / 16777216 + tiny"
proof (cases "0 \<le> x")
  case True
  with to_float_near [of x] have "to_float x \<le> x + x / 16777216 + tiny" by simp
  with assms(1) show ?thesis by linarith
next
  case False
  then have "to_float x \<le> 0" by (intro to_float_nonpos) simp
  with assms(2) tiny_bounds(1) show ?thesis by linarith
qed

lemma to_float_ge:
  assumes "- B \<le> x" "0 \<le> B"
  shows "- (B + B / 16777216 + tiny) \<le> to_float x"
proof (cases "x \<le> 0")
  case True
  with to_float_near [of x] have "x + x / 16777216 - tiny \<le> to_float x" by simp
  with assms(1) show ?thesis by linarith
next
  case False
  then have "0 \<le> to_float x" by (intro to_float_nonneg) simp
  with assms(2) tiny_bounds(1) show ?thesis by linarith
qed

text \<open>Below 1 the largest \<open>float\<close> is \<open>1 - 2\<^sup>-\<^sup>2\<^sup>4\<close>.\<close>

lemma float_below_one:
  assumes "is_float h" "h < 1"
  shows "h \<le> 1 - 1 / 16777216"
proof (cases "h < 1 / 2")
  case True
  then show ?thesis by simp
next
  case False
  with assms(2) have b: "2 powr real_of_int (- 1) \<le> \<bar>h\<bar>" "\<bar>h\<bar> < 2 powr real_of_int (- 1 + 1)"
    by (simp_all add: powr_minus_divide)
  define n where "n = round_even (h / 2 powr real_of_int (max (- 1 - (int 24 - 1)) (- 149)))"
  have "to_float h = real_of_int n * 2 powr real_of_int (max (- 1 - (int 24 - 1)) (- 149))"
    unfolding to_float_def n_def using b by (rule fp_round_eval)
  with assms(1) have h: "h = real_of_int n / 16777216"
    by (simp add: is_float_def powr_minus_divide)
  with assms(2) have "real_of_int n < real_of_int 16777216" by simp
  then have "n < 16777216" by (simp only: of_int_less_iff)
  then have "n \<le> 16777215" by simp
  then have "real_of_int n \<le> real_of_int 16777215" by (simp only: of_int_le_iff)
  then show ?thesis by (simp add: h)
qed

text \<open>
  A factor in \<open>[0, 1]\<close> keeps a value between a bound below 0 and a bound above 0.
\<close>

lemma scale_between:
  fixes c f lo hi :: real
  assumes "0 \<le> c" "c \<le> 1" "- lo \<le> f" "f \<le> hi" "0 \<le> lo" "0 \<le> hi"
  shows "- lo \<le> c * f" "c * f \<le> hi"
proof -
  have "c * f \<le> c * hi" using assms(4,1) by (rule mult_left_mono)
  also have "\<dots> \<le> 1 * hi" using assms(2,6) by (rule mult_right_mono)
  finally show "c * f \<le> hi" by simp
  have "c * (- lo) \<le> c * f" using assms(3,1) by (rule mult_left_mono)
  moreover have "c * lo \<le> 1 * lo" using assms(2,5) by (rule mult_right_mono)
  ultimately show "- lo \<le> c * f" by simp
qed

text \<open>
  The falloff inside the dab, \<open>rr < hardness\<close>: the factor of the opacity is within
  \<open>2\<^sup>-\<^sup>2\<^sup>0\<close> of \<open>[0, 1]\<close>.
\<close>

lemma falloff_inner:
  assumes "0 \<le> rr" "rr < hrd" "hrd \<le> 1"
  shows "- (1 / 1048576) \<le> to_float (to_float (rr + 1) - to_float (rr / hrd))"
    and "to_float (to_float (rr + 1) - to_float (rr / hrd)) \<le> 1 + 1 / 1048576"
proof -
  define q where "q = rr / hrd"
  from assms have h: "0 < hrd" by simp
  have q: "0 \<le> q" "q \<le> 1" "rr \<le> q"
    using assms h by (simp_all add: q_def le_divide_eq mult_left_le)
  from assms have r1: "rr \<le> 1" by simp
  note t = tiny_bounds
  have e1: "to_float (rr + 1) \<le> (rr + 1) + (rr + 1) / 16777216 + tiny"
    "(rr + 1) - (rr + 1) / 16777216 - tiny \<le> to_float (rr + 1)"
    using to_float_near [of "rr + 1"] assms(1) by simp_all
  have e2: "to_float q \<le> q + q / 16777216 + tiny" "q - q / 16777216 - tiny \<le> to_float q"
    using to_float_near [of q] q(1) by simp_all
  have u: "to_float (rr + 1) - to_float q \<le> 1 + 1 / 4194304"
    using e1 e2 q r1 assms(1) t by argo
  have l: "- (1 / 4194304) \<le> to_float (rr + 1) - to_float q"
    using e1 e2 q r1 assms(1) t by argo
  from to_float_le [OF u] t have "to_float (to_float (rr + 1) - to_float q) \<le> 1 + 1 / 1048576"
    by argo
  moreover from to_float_ge [OF l] t
  have "- (1 / 1048576) \<le> to_float (to_float (rr + 1) - to_float q)"
    by argo
  ultimately show "- (1 / 1048576) \<le> to_float (to_float (rr + 1) - to_float (rr / hrd))"
    and "to_float (to_float (rr + 1) - to_float (rr / hrd)) \<le> 1 + 1 / 1048576"
    by (simp_all add: q_def)
qed

text \<open>
  The falloff towards the rim, \<open>hardness \<le> rr\<close>, for a hardness that is a \<open>float\<close> below 1:
  the factor of the opacity is at least 0 and within \<open>2\<^sup>-\<^sup>2\<^sup>0\<close> of 1.
\<close>

lemma falloff_outer:
  assumes "0 \<le> hrd" "hrd \<le> 1 - 1 / 16777216" "hrd \<le> rr" "rr \<le> 1"
  shows "0 \<le> to_float (to_float (hrd / to_float (hrd - 1)) * to_float (rr - 1))"
    and "to_float (to_float (hrd / to_float (hrd - 1)) * to_float (rr - 1)) \<le> 1 + 1 / 1048576"
proof -
  note t = tiny_bounds
  define a where "a = 1 - hrd"
  define dd where "dd = - to_float (hrd - 1)"
  define L where "L = a - a / 16777216 - tiny"
  define A2 where "A2 = a + a / 16777216 + tiny"
  define W where "W = hrd / dd"
  define G where "G = - to_float (hrd / to_float (hrd - 1))"
  define E where "E = - to_float (rr - 1)"
  define K :: real where "K = 1 + 1 / 4194304"
  have a: "1 / 16777216 \<le> a" "a \<le> 1" using assms(1,2) by (simp_all add: a_def)
  have L: "0 < L" using a t unfolding L_def by argo
  have "\<bar>to_float (hrd - 1) - (hrd - 1)\<bar> \<le> \<bar>hrd - 1\<bar> / 16777216 + tiny"
    by (rule to_float_near)
  moreover have "\<bar>hrd - 1\<bar> = a" using a(1) by (simp add: a_def)
  ultimately have dd: "L \<le> dd" unfolding dd_def L_def a_def by argo
  with L have dd0: "0 < dd" by linarith
  have W0: "0 \<le> W" using assms(1) dd0 by (simp add: W_def)
  have w: "hrd / to_float (hrd - 1) = - W"
    by (simp add: W_def dd_def)
  have G0: "0 \<le> G"
    unfolding G_def w using W0 to_float_nonpos [of "- W"] by simp
  have "\<bar>to_float (- W) - (- W)\<bar> \<le> \<bar>- W\<bar> / 16777216 + tiny"
    by (rule to_float_near)
  then have G: "G \<le> W + W / 16777216 + tiny"
    unfolding G_def w using W0 by argo
  have E0: "0 \<le> E"
    unfolding E_def using assms(4) to_float_nonpos [of "rr - 1"] by simp
  have "\<bar>to_float (rr - 1) - (rr - 1)\<bar> \<le> \<bar>rr - 1\<bar> / 16777216 + tiny"
    by (rule to_float_near)
  moreover have "\<bar>rr - 1\<bar> = 1 - rr" using assms(4) by simp
  ultimately have E: "E \<le> A2"
    unfolding E_def A2_def a_def using assms(3) by argo
  have A20: "0 \<le> A2" "A2 \<le> 3" using a t unfolding A2_def by argo+
  have "A2 \<le> K * L" using a t unfolding A2_def K_def L_def by argo
  also have "\<dots> \<le> K * dd" using dd by (intro mult_left_mono) (simp_all add: K_def)
  finally have "A2 / dd \<le> K" using dd0 by (simp add: pos_divide_le_eq)
  moreover have "0 \<le> A2 / dd" using A20(1) dd0 by simp
  ultimately have "hrd * (A2 / dd) \<le> 1 * K"
    using assms(1,2) by (intro mult_mono) simp_all
  then have WA: "W * A2 \<le> K" by (simp add: W_def)
  have WA0: "0 \<le> W * A2" using W0 A20(1) by simp
  have "G * E \<le> (W + W / 16777216 + tiny) * A2"
    using G E G0 E0 A20(1) W0 t(1) by (intro mult_mono) simp_all
  also have "\<dots> = W * A2 + W * A2 / 16777216 + tiny * A2"
    by (simp add: algebra_simps)
  also have "\<dots> \<le> K + K / 16777216 + tiny * 3"
    using WA A20 t(1) by (intro add_mono mult_left_mono divide_right_mono) simp_all
  also have "\<dots> \<le> 1 + 1 / 2097152"
    using t unfolding K_def by argo
  finally have y: "G * E \<le> 1 + 1 / 2097152" .
  have y0: "0 \<le> G * E" using G0 E0 by simp
  have e: "to_float (hrd / to_float (hrd - 1)) * to_float (rr - 1) = G * E"
    by (simp add: G_def E_def)
  show "0 \<le> to_float (to_float (hrd / to_float (hrd - 1)) * to_float (rr - 1))"
    unfolding e using y0 by (rule to_float_nonneg)
  from to_float_le [OF y] t
  show "to_float (to_float (hrd / to_float (hrd - 1)) * to_float (rr - 1)) \<le> 1 + 1 / 1048576"
    unfolding e by argo
qed

text \<open>
  The opacity of a pixel inside the dab is within \<open>2\<^sup>-\<^sup>1\<^sup>9\<close> of \<open>[0, 1]\<close>, for a hardness
  that is a \<open>float\<close>.
\<close>

lemma dab_opa_range:
  assumes "0 \<le> opq" "opq \<le> 1" "0 \<le> hrd" "hrd \<le> 1" "is_float hrd" "0 \<le> rr" "rr \<le> 1"
  shows "- (1 / 524288) \<le> dab_opa opq hrd rr" and "dab_opa opq hrd rr \<le> 1 + 1 / 524288"
proof -
  note t = tiny_bounds
  have r: "- (1 / 524288) \<le> to_float (opq * f) \<and> to_float (opq * f) \<le> 1 + 1 / 524288"
    if "- (1 / 1048576) \<le> f" "f \<le> 1 + 1 / 1048576" for f
  proof -
    from scale_between [OF assms(1,2) that]
    have "- (1 / 1048576) \<le> opq * f" "opq * f \<le> 1 + 1 / 1048576" by simp_all
    from to_float_ge [OF this(1)] to_float_le [OF this(2)] t show ?thesis by argo
  qed
  have "- (1 / 524288) \<le> dab_opa opq hrd rr \<and> dab_opa opq hrd rr \<le> 1 + 1 / 524288"
  proof (cases "hrd < 1")
    case False
    with assms(1,2) show ?thesis by (simp add: dab_opa_def)
  next
    case h: True
    show ?thesis
    proof (cases "rr < hrd")
      case True
      from r [OF falloff_inner [OF assms(6) True assms(4)]] h True
      show ?thesis by (simp add: dab_opa_def)
    next
      case False
      then have le: "hrd \<le> rr" by simp
      note o = falloff_outer [OF assms(3) float_below_one [OF assms(5) h] le assms(7)]
      from o(1) have "- (1 / 1048576) \<le> to_float (to_float (hrd / to_float (hrd - 1)) * to_float (rr - 1))"
        by linarith
      from r [OF this o(2)] h False show ?thesis by (simp add: dab_opa_def)
    qed
  qed
  then show "- (1 / 524288) \<le> dab_opa opq hrd rr" and "dab_opa opq hrd rr \<le> 1 + 1 / 524288"
    by simp_all
qed

text \<open>The conversion to \<open>uint32_t\<close> of a value between \<open>- 1\<close> and \<open>n + 1\<close>.\<close>

lemma unat_to_uint32_le:
  fixes n :: nat
  assumes "- 1 < r" "r < real n + 1" "n < 2 ^ 32"
  shows "unat (to_uint32 r) \<le> n"
proof -
  have k: "0 \<le> truncate_real r \<and> truncate_real r \<le> int n"
  proof (cases "0 \<le> r")
    case True
    moreover from assms(2) have "\<lfloor>r\<rfloor> \<le> int n" by (simp add: floor_le_iff)
    ultimately show ?thesis by (simp add: truncate_real_def)
  next
    case False
    with assms(1) have "\<lceil>r\<rceil> = 0" by (simp add: ceiling_eq_iff)
    with False show ?thesis by (simp add: truncate_real_def)
  qed
  from assms(3) have "int n < int (2 ^ 32)" by (simp only: of_nat_less_iff)
  with k have "truncate_real r < 2 ^ 32" by simp
  with k have "unat (word_of_int (truncate_real r) :: 32 word) = nat (truncate_real r)"
    by (intro unat_word_of_int_32) simp_all
  moreover from k have "nat (truncate_real r) \<le> n" by linarith
  ultimately show ?thesis by (simp add: to_uint32_def)
qed

lemma opa15_le:
  assumes "- (1 / 524288) \<le> opa" "opa \<le> 1 + 1 / 524288"
  shows "unat (to_uint32 (to_float (2 ^ 15 * opa))) \<le> 2 ^ 15"
proof -
  note t = tiny_bounds
  from assms have "- (1 / 16) \<le> 2 ^ 15 * opa" "2 ^ 15 * opa \<le> 32768 + 1 / 16" by simp_all
  from to_float_ge [OF this(1)] to_float_le [OF this(2)] t
  have "- 1 < to_float (2 ^ 15 * opa)" "to_float (2 ^ 15 * opa) < real (2 ^ 15) + 1"
    by (simp; argo)+
  then show ?thesis by (rule unat_to_uint32_le) simp
qed

lemma eraser_scale:
  fixes n :: nat
  assumes "n \<le> 2 ^ 15" "0 \<le> e" "e \<le> 1"
  shows "unat (to_uint32 (to_float (to_float (real n) * e))) \<le> n"
proof -
  note t = tiny_bounds
  from assms(1) have n: "real n \<le> 32768" by simp
  have z0: "0 \<le> to_float (real n)" by (rule to_float_nonneg) simp
  have z1: "to_float (real n) \<le> real n + real n / 16777216 + tiny"
    by (rule to_float_le) simp_all
  have p0: "0 \<le> to_float (real n) * e" using z0 assms(2) by simp
  have "to_float (real n) * e \<le> to_float (real n) * 1"
    using assms(3) z0 by (intro mult_left_mono)
  with z1 have p1: "to_float (real n) * e \<le> real n + real n / 16777216 + tiny" by simp
  have b0: "0 \<le> real n + real n / 16777216 + tiny" using t(1) by simp
  have "0 \<le> to_float (to_float (real n) * e)" using p0 by (rule to_float_nonneg)
  then have 1: "- 1 < to_float (to_float (real n) * e)" by linarith
  from to_float_le [OF p1 b0] n t
  have 2: "to_float (to_float (real n) * e) < real n + 1" by argo
  from assms(1) have "n < 2 ^ 32" by simp
  with 1 2 show ?thesis by (rule unat_to_uint32_le)
qed

lemma color15_le:
  assumes "0 \<le> c" "c \<le> 1"
  shows "unat (color15 c) \<le> 2 ^ 15"
proof -
  note t = tiny_bounds
  from assms have "0 \<le> c * 2 ^ 15" "c * 2 ^ 15 \<le> 32768" by simp_all
  from to_float_nonneg [OF this(1)] to_float_le [OF this(2)] t
  have "- 1 < to_float (c * 2 ^ 15)" "to_float (c * 2 ^ 15) < real (2 ^ 15) + 1"
    by (simp; argo)+
  then show ?thesis unfolding color15_def by (rule unat_to_uint32_le) simp
qed

lemma pixel_opa_sum:
  assumes "dab_ok d" "0 \<le> rr" "rr \<le> 1"
  shows "unat (pixel_opa_a d rr) + unat (pixel_opa_b d rr) \<le> 2 ^ 15"
proof -
  define opa where "opa = dab_opa (opaque d) (hardness d) rr"
  define k where "k = to_uint32 (to_float (2 ^ 15 * opa))"
  from assms(1) have o: "0 \<le> opaque d" "opaque d \<le> 1" "0 \<le> hardness d" "hardness d \<le> 1"
    "is_float (hardness d)"
    by (simp_all add: dab_ok_def)
  have "- (1 / 524288) \<le> opa" "opa \<le> 1 + 1 / 524288"
    unfolding opa_def by (rule dab_opa_range [OF o assms(2,3)])+
  then have k: "unat k \<le> 2 ^ 15" unfolding k_def by (rule opa15_le)
  then have "k \<le> 2 ^ 15" by (simp add: word_le_nat_alt)
  then have b: "unat (2 ^ 15 - k) = 2 ^ 15 - unat k"
    by (simp add: unat_sub)
  from assms(1) have e: "0 \<le> alpha_eraser d" "alpha_eraser d \<le> 1"
    by (simp_all add: dab_ok_def)
  have a: "unat (to_uint32 (to_float (to_float (real (unat k)) * alpha_eraser d))) \<le> unat k"
    using k e by (rule eraser_scale)
  have "pixel_opa_a d rr = to_uint32 (to_float (to_float (real (unat k)) * alpha_eraser d))"
    by (simp only: pixel_opa_a_def opa_def k_def)
  moreover have "pixel_opa_b d rr = 2 ^ 15 - k"
    by (simp only: pixel_opa_b_def opa_def k_def)
  ultimately show ?thesis using a b k by simp
qed

lemma row_yy_nonneg: "0 \<le> row_yy yc yp"
  by (simp add: row_yy_def Let_def to_float_nonneg)

lemma pixel_rr_nonneg: "0 \<le> yy \<Longrightarrow> pixel_rr rad xc yy xp = Some rr \<Longrightarrow> 0 \<le> rr"
  by (auto simp: pixel_rr_def Let_def to_float_nonneg to_double_nonneg split: if_splits)

text \<open>With a radius whose square is 0 no distance is a finite number.\<close>

lemma pixel_rr_no_radius: "pixel_rr 0 xc yy xp = None"
  by (simp add: pixel_rr_def Let_def to_float_0)

text \<open>
  One pixel of \<open>soft_dab\<close>, rounded as the program rounds it. In exact arithmetic the two
  alphas of this pixel would be 16896 and 15872.
\<close>

lemma to_double_hundredth: "to_double (1 / 100) = 5764607523034235 / 576460752303423488"
proof -
  have "to_double (1 / 100) = real_of_int (round_even (1 / 100 / 2 powr real_of_int (- 7 - 52)))
                         * 2 powr real_of_int (- 7 - 52)"
    by (rule to_double_at) (simp_all add: powr_minus_divide)
  also have "\<dots> = 5764607523034235 / 576460752303423488"
    by (simp add: powr_minus_divide round_even_def Let_def)
  finally show ?thesis .
qed

lemma to_float_hundredth:
  "to_float (5764607523034235 / 576460752303423488) = 5368709 / 536870912"
proof -
  have "to_float (5764607523034235 / 576460752303423488)
          = real_of_int (round_even (5764607523034235 / 576460752303423488
                                      / 2 powr real_of_int (- 7 - 23)))
              * 2 powr real_of_int (- 7 - 23)"
    by (rule to_float_at) (simp_all add: powr_minus_divide)
  also have "\<dots> = 5368709 / 536870912"
    by (simp add: powr_minus_divide round_even_def Let_def)
  finally show ?thesis .
qed

lemma to_float_soft_rr: "to_float (1105 / 16 * (5368709 / 536870912)) = 11586765 / 16777216"
proof -
  have "to_float (1105 / 16 * (5368709 / 536870912))
          = real_of_int (round_even (1105 / 16 * (5368709 / 536870912)
                                      / 2 powr real_of_int (- 1 - 23)))
              * 2 powr real_of_int (- 1 - 23)"
    by (rule to_float_at) (simp_all add: powr_minus_divide)
  also have "\<dots> = 11586765 / 16777216"
    by (simp add: powr_minus_divide round_even_def Let_def)
  finally show ?thesis .
qed

lemma soft_dab_rr:
  "pixel_rr (radius soft_dab) (83 / 4) (row_yy (41 / 2) 19) 12 = Some (11586765 / 16777216)"
proof -
  have y: "row_yy (41 / 2) 19 = 1"
    by (simp add: row_yy_def Let_def to_float_exact to_double_exact)
  have x: "to_float (to_double (to_double (real_of_int 12 + 0.5) - 83 / 4)) = - (33 / 4)"
    by (simp add: to_float_exact to_double_exact)
  have x2: "to_float (- (33 / 4) * - (33 / 4)) = 1089 / 16"
    by (simp add: to_float_exact)
  have s: "to_float (1 + 1089 / 16) = 1105 / 16"
    by (simp add: to_float_exact)
  have r: "to_float (radius soft_dab * radius soft_dab) = 100"
    by (simp add: soft_dab_def to_float_exact)
  have f: "finite_float 100"
    by (simp add: finite_float_def)
  show ?thesis
    by (simp only: pixel_rr_def Let_def y x x2 s r f if_True to_double_hundredth
        to_float_hundredth to_float_soft_rr)
      (simp add: finite_float_def)
qed

lemma to_float_soft_ratio: "to_float (5 / 8 / (- (3 / 8))) = - (13981013 / 8388608)"
proof -
  have "to_float (5 / 8 / (- (3 / 8)))
          = real_of_int (round_even (5 / 8 / (- (3 / 8)) / 2 powr real_of_int (0 - 23)))
              * 2 powr real_of_int (0 - 23)"
    by (rule to_float_at) (simp_all add: powr_minus_divide)
  also have "\<dots> = - (13981013 / 8388608)"
    by (simp add: powr_minus_divide round_even_def Let_def)
  finally show ?thesis .
qed

lemma to_float_soft_factor:
  "to_float (- (13981013 / 8388608) * - (5190451 / 16777216)) = 8650751 / 16777216"
proof -
  have "to_float (- (13981013 / 8388608) * - (5190451 / 16777216))
          = real_of_int (round_even (- (13981013 / 8388608) * - (5190451 / 16777216)
                                      / 2 powr real_of_int (- 1 - 23)))
              * 2 powr real_of_int (- 1 - 23)"
    by (rule to_float_at) (simp_all add: powr_minus_divide)
  also have "\<dots> = 8650751 / 16777216"
    by (simp add: powr_minus_divide round_even_def Let_def)
  finally show ?thesis .
qed

lemma soft_dab_opa:
  "dab_opa (opaque soft_dab) (hardness soft_dab) (11586765 / 16777216) = 8650751 / 16777216"
proof -
  have a: "to_float (5 / 8 - 1) = - (3 / 8)"
    by (simp add: to_float_exact)
  have b: "to_float (11586765 / 16777216 - 1) = - (5190451 / 16777216)"
    by (simp add: to_float_frac [where j = 24])
  have c: "to_float (1 * (8650751 / 16777216)) = 8650751 / 16777216"
    by (simp add: to_float_frac [where j = 24])
  have h: "hardness soft_dab = 5 / 8" "opaque soft_dab = 1"
    by (simp_all add: soft_dab_def)
  have "dab_opa 1 (5 / 8) (11586765 / 16777216)
          = to_float (1 * to_float (to_float (5 / 8 / to_float (5 / 8 - 1))
                                      * to_float (11586765 / 16777216 - 1)))"
    by (simp add: dab_opa_def)
  also have "\<dots> = 8650751 / 16777216"
    by (simp only: a b to_float_soft_ratio to_float_soft_factor c)
  finally show ?thesis by (simp only: h)
qed

lemma soft_dab_alphas:
  "pixel_opa_a soft_dab (11586765 / 16777216) = 16895"
  "pixel_opa_b soft_dab (11586765 / 16777216) = 15873"
proof -
  have v: "to_float (2 ^ 15 * (8650751 / 16777216)) = 8650751 / 512"
    by (simp add: to_float_frac [where j = 9])
  have k: "to_uint32 (8650751 / 512) = 16895"
    by (simp add: to_uint32_def truncate_real_def)
  have e: "to_uint32 (to_float (to_float (real (unat (16895 :: 32 word))) * alpha_eraser soft_dab))
             = 16895"
    by (simp add: soft_dab_def to_float_exact to_uint32_def truncate_real_def)
  show "pixel_opa_a soft_dab (11586765 / 16777216) = 16895"
    by (simp only: pixel_opa_a_def soft_dab_opa v k e)
  show "pixel_opa_b soft_dab (11586765 / 16777216) = 15873"
    by (simp only: pixel_opa_b_def soft_dab_opa v k) simp
qed

section \<open>Drawing keeps tiles premultiplied\<close>

lemma blend_arith:
  fixes a b c A R :: nat
  assumes "a + b \<le> 2 ^ 15" "c \<le> 2 ^ 15" "A \<le> 2 ^ 15" "R \<le> A"
  shows "b * A < 2 ^ 32" "a + b * A div 2 ^ 15 \<le> 2 ^ 15" "a * c < 2 ^ 32" "b * R < 2 ^ 32"
    "a * c + b * R < 2 ^ 32" "(a * c + b * R) div 2 ^ 15 \<le> a + b * A div 2 ^ 15"
proof -
  from assms have ab: "a \<le> 2 ^ 15" "b \<le> 2 ^ 15" "R \<le> 2 ^ 15" by simp_all
  have sq: "(2 ^ 15 :: nat) * 2 ^ 15 = 2 ^ 30" by simp
  have lt: "(2 :: nat) ^ 30 < 2 ^ 32" "(2 :: nat) ^ 30 + 2 ^ 30 < 2 ^ 32" by simp_all
  have bA: "b * A \<le> 2 ^ 30" using mult_le_mono [OF ab(2) assms(3)] by (simp only: sq)
  have bR: "b * R \<le> b * A" using assms(4) by simp
  have ac: "a * c \<le> a * 2 ^ 15" using assms(2) by simp
  have ac': "a * c \<le> 2 ^ 30" using mult_le_mono [OF ab(1) assms(2)] by (simp only: sq)
  show "b * A < 2 ^ 32" using bA lt by linarith
  have "b * A \<le> b * 2 ^ 15" using assms(3) by simp
  then have "b * A div 2 ^ 15 \<le> b" by (metis div_le_mono nonzero_mult_div_cancel_right power_eq_0_iff zero_neq_numeral)
  with assms(1) show "a + b * A div 2 ^ 15 \<le> 2 ^ 15" by linarith
  show "a * c < 2 ^ 32" using ac' lt by linarith
  show "b * R < 2 ^ 32" using bR bA lt by linarith
  show "a * c + b * R < 2 ^ 32" using ac' bR bA lt by linarith
  have "a * c + b * R \<le> a * 2 ^ 15 + b * A" using ac bR by linarith
  then have "(a * c + b * R) div 2 ^ 15 \<le> (a * 2 ^ 15 + b * A) div 2 ^ 15"
    by (rule div_le_mono)
  also have "\<dots> = a + b * A div 2 ^ 15" by simp
  finally show "(a * c + b * R) div 2 ^ 15 \<le> a + b * A div 2 ^ 15" .
qed

lemma blend_alpha_unat:
  fixes opa_a opa_b :: "32 word" and A :: "16 word"
  assumes "unat opa_a + unat opa_b \<le> 2 ^ 15" "unat A \<le> 2 ^ 15"
  shows "unat (ucast (opa_a + (opa_b * ucast A) div 2 ^ 15) :: 16 word)
           = unat opa_a + unat opa_b * unat A div 2 ^ 15"
proof -
  note ar = blend_arith [OF assms(1) order_refl assms(2) order_refl]
  have m: "unat (opa_b * ucast A) = unat opa_b * unat A"
    using ar(1) by (subst unat_mult_32) (simp_all only: unat_ucast_up_16)
  have d: "unat ((opa_b * ucast A) div 2 ^ 15) = unat opa_b * unat A div 2 ^ 15"
    by (simp only: unat_div m unat_2p15)
  have s: "unat (opa_a + (opa_b * ucast A) div 2 ^ 15) = unat opa_a + unat opa_b * unat A div 2 ^ 15"
    using ar(2) by (subst unat_add_32) (simp_all only: d, simp)
  show ?thesis
    using ar(2) by (subst unat_ucast_down_16) (simp_all only: s, simp)
qed

lemma blend_color_unat:
  fixes opa_a opa_b c :: "32 word" and A R :: "16 word"
  assumes "unat opa_a + unat opa_b \<le> 2 ^ 15" "unat c \<le> 2 ^ 15" "unat A \<le> 2 ^ 15" "unat R \<le> unat A"
  shows "unat (ucast ((opa_a * c + opa_b * ucast R) div 2 ^ 15) :: 16 word)
           = (unat opa_a * unat c + unat opa_b * unat R) div 2 ^ 15"
proof -
  note ar = blend_arith [OF assms]
  have m1: "unat (opa_a * c) = unat opa_a * unat c"
    using ar(3) by (subst unat_mult_32) simp_all
  have m2: "unat (opa_b * ucast R) = unat opa_b * unat R"
    using ar(4) by (subst unat_mult_32) (simp_all only: unat_ucast_up_16)
  have s: "unat (opa_a * c + opa_b * ucast R) = unat opa_a * unat c + unat opa_b * unat R"
    using ar(5) by (subst unat_add_32) (simp_all only: m1 m2)
  have d: "unat ((opa_a * c + opa_b * ucast R) div 2 ^ 15)
             = (unat opa_a * unat c + unat opa_b * unat R) div 2 ^ 15"
    by (simp only: unat_div s unat_2p15)
  have "(unat opa_a * unat c + unat opa_b * unat R) div 2 ^ 15 < 2 ^ 16"
    using ar(6) ar(2) by simp
  then show ?thesis
    by (subst unat_ucast_down_16) (simp_all only: d)
qed

lemma blend_pixel_at:
  "blend_pixel opa_a opa_b cr cg cb idx rgba_p (idx + 3)
     = ucast (opa_a + (opa_b * ucast (rgba_p (idx + 3))) div 2 ^ 15)"
  "blend_pixel opa_a opa_b cr cg cb idx rgba_p (idx + 0)
     = ucast ((opa_a * cr + opa_b * ucast (rgba_p (idx + 0))) div 2 ^ 15)"
  "blend_pixel opa_a opa_b cr cg cb idx rgba_p (idx + 1)
     = ucast ((opa_a * cg + opa_b * ucast (rgba_p (idx + 1))) div 2 ^ 15)"
  "blend_pixel opa_a opa_b cr cg cb idx rgba_p (idx + 2)
     = ucast ((opa_a * cb + opa_b * ucast (rgba_p (idx + 2))) div 2 ^ 15)"
  by (simp_all add: blend_pixel_def Let_def)

lemma blend_pixel_frame:
  "j < idx \<or> idx + 3 < j \<Longrightarrow> blend_pixel opa_a opa_b cr cg cb idx rgba_p j = rgba_p j"
  by (auto simp: blend_pixel_def Let_def)

lemma blend_pixel_ok:
  assumes ab: "unat opa_a + unat opa_b \<le> 2 ^ 15"
    and c: "unat cr \<le> 2 ^ 15" "unat cg \<le> 2 ^ 15" "unat cb \<le> 2 ^ 15"
    and p: "pixel_ok rgba_p idx"
  shows "pixel_ok (blend_pixel opa_a opa_b cr cg cb idx rgba_p) idx"
proof -
  from p have A: "unat (rgba_p (idx + 3)) \<le> 2 ^ 15"
    and R: "unat (rgba_p (idx + 0)) \<le> unat (rgba_p (idx + 3))"
    and G: "unat (rgba_p (idx + 1)) \<le> unat (rgba_p (idx + 3))"
    and B: "unat (rgba_p (idx + 2)) \<le> unat (rgba_p (idx + 3))"
    by (simp_all only: pixel_ok_def)
  let ?m = "blend_pixel opa_a opa_b cr cg cb idx rgba_p"
  have a': "unat (?m (idx + 3)) = unat opa_a + unat opa_b * unat (rgba_p (idx + 3)) div 2 ^ 15"
    by (simp only: blend_pixel_at blend_alpha_unat [OF ab A])
  have r': "unat (?m (idx + 0))
      = (unat opa_a * unat cr + unat opa_b * unat (rgba_p (idx + 0))) div 2 ^ 15"
    by (simp only: blend_pixel_at blend_color_unat [OF ab c(1) A R])
  have g': "unat (?m (idx + 1))
      = (unat opa_a * unat cg + unat opa_b * unat (rgba_p (idx + 1))) div 2 ^ 15"
    by (simp only: blend_pixel_at blend_color_unat [OF ab c(2) A G])
  have b': "unat (?m (idx + 2))
      = (unat opa_a * unat cb + unat opa_b * unat (rgba_p (idx + 2))) div 2 ^ 15"
    by (simp only: blend_pixel_at blend_color_unat [OF ab c(3) A B])
  show ?thesis
    unfolding pixel_ok_def a' r' g' b'
    using blend_arith(2) [OF ab c(1) A R] blend_arith(6) [OF ab c(1) A R]
      blend_arith(6) [OF ab c(2) A G] blend_arith(6) [OF ab c(3) A B]
    by blast
qed

lemma blend_pixel_fits:
  assumes ab: "unat opa_a + unat opa_b \<le> 2 ^ 15"
    and c: "unat cr \<le> 2 ^ 15" "unat cg \<le> 2 ^ 15" "unat cb \<le> 2 ^ 15"
    and p: "pixel_ok rgba_p idx"
  shows "blend_fits opa_a opa_b cr cg cb idx rgba_p"
proof -
  from p have A: "unat (rgba_p (idx + 3)) \<le> 2 ^ 15"
    and R: "unat (rgba_p (idx + 0)) \<le> unat (rgba_p (idx + 3))"
    and G: "unat (rgba_p (idx + 1)) \<le> unat (rgba_p (idx + 3))"
    and B: "unat (rgba_p (idx + 2)) \<le> unat (rgba_p (idx + 3))"
    by (simp_all only: pixel_ok_def)
  note r = blend_arith [OF ab c(1) A R]
  note g = blend_arith [OF ab c(2) A G]
  note b = blend_arith [OF ab c(3) A B]
  have "unat opa_a + unat opa_b * unat (rgba_p (idx + 3)) div 2 ^ 15 < 2 ^ 32"
    using r(2) by simp
  with r g b show ?thesis
    unfolding blend_fits_def by blast
qed

lemma pixel_ok_frame:
  assumes "idx' + 3 < idx \<or> idx + 3 < idx'"
  shows "pixel_ok (blend_pixel opa_a opa_b cr cg cb idx rgba_p) idx' = pixel_ok rgba_p idx'"
proof -
  have "blend_pixel opa_a opa_b cr cg cb idx rgba_p (idx' + k) = rgba_p (idx' + k)"
    if "0 \<le> k" "k \<le> 3" for k
    using assms that by (intro blend_pixel_frame) linarith
  from this [of 0] this [of 1] this [of 2] this [of 3] show ?thesis
    by (simp add: pixel_ok_def)
qed

lemma blend_pixel_tile_ok:
  assumes ab: "unat opa_a + unat opa_b \<le> 2 ^ 15"
    and c: "unat cr \<le> 2 ^ 15" "unat cg \<le> 2 ^ 15" "unat cb \<le> 2 ^ 15"
    and t: "tile_ok rgba_p"
    and r: "0 \<le> yp" "yp \<le> 63" "0 \<le> xp" "xp \<le> 63"
  shows "tile_ok (blend_pixel opa_a opa_b cr cg cb (pixel_idx yp xp) rgba_p)"
  unfolding tile_ok_def
proof (intro allI impI)
  fix yq xq
  assume q: "0 \<le> yq \<and> yq < TILE_SIZE \<and> 0 \<le> xq \<and> xq < TILE_SIZE"
  with t have old: "pixel_ok rgba_p (pixel_idx yq xq)"
    by (simp only: tile_ok_def)
  from t r have here: "pixel_ok rgba_p (pixel_idx yp xp)"
    by (simp add: tile_ok_def TILE_SIZE_def)
  define m where "m = yq * 64 + xq"
  define n where "n = yp * 64 + xp"
  have im: "pixel_idx yq xq = 4 * m" "pixel_idx yp xp = 4 * n"
    by (simp_all add: pixel_idx_def TILE_SIZE_def m_def n_def)
  consider "m = n" | "m < n" | "n < m" by linarith
  then show "pixel_ok (blend_pixel opa_a opa_b cr cg cb (pixel_idx yp xp) rgba_p) (pixel_idx yq xq)"
  proof cases
    case 1
    then have "pixel_idx yq xq = pixel_idx yp xp" by (simp only: im)
    then show ?thesis using blend_pixel_ok [OF ab c here] by simp
  next
    case 2
    then have "pixel_idx yq xq + 3 < pixel_idx yp xp" unfolding im by linarith
    then show ?thesis using old by (simp only: pixel_ok_frame simp_thms)
  next
    case 3
    then have "pixel_idx yp xp + 3 < pixel_idx yq xq" unfolding im by linarith
    then show ?thesis using old by (simp only: pixel_ok_frame simp_thms)
  qed
qed

lemma dab_ok_colors:
  assumes "dab_ok d"
  shows "unat (color15 (color_r d)) \<le> 2 ^ 15 \<and> unat (color15 (color_g d)) \<le> 2 ^ 15
         \<and> unat (color15 (color_b d)) \<le> 2 ^ 15"
proof -
  from assms have c: "0 \<le> color_r d" "color_r d \<le> 1" "0 \<le> color_g d" "color_g d \<le> 1"
    "0 \<le> color_b d" "color_b d \<le> 1"
    by (simp_all add: dab_ok_def)
  from color15_le [OF c(1,2)] color15_le [OF c(3,4)] color15_le [OF c(5,6)]
  show ?thesis by blast
qed

lemma draw_pixel_tile_ok:
  assumes d: "dab_ok d" and yy: "0 \<le> yy" and t: "tile_ok rgba_p"
    and r: "0 \<le> yp" "yp \<le> 63" "0 \<le> xp" "xp \<le> 63"
  shows "\<exists>b'. draw_pixel d xc yy yp xp rgba_p = Some b' \<and> tile_ok b'"
proof (cases "pixel_rr (radius d) xc yy xp")
  case None
  with t show ?thesis by (simp add: draw_pixel_def)
next
  case (Some rr)
  from yy Some have rr0: "0 \<le> rr" by (rule pixel_rr_nonneg)
  have c: "unat (color15 (color_r d)) \<le> 2 ^ 15" "unat (color15 (color_g d)) \<le> 2 ^ 15"
    "unat (color15 (color_b d)) \<le> 2 ^ 15"
    using dab_ok_colors [OF d] by blast+
  have i: "in_tile (pixel_idx yp xp)" using r by (rule pixel_idx_in_tile)
  show ?thesis
  proof (cases "rr \<le> 1")
    case True
    from pixel_opa_sum [OF d rr0 True]
    have "tile_ok (blend_pixel (pixel_opa_a d rr) (pixel_opa_b d rr)
             (color15 (color_r d)) (color15 (color_g d)) (color15 (color_b d))
             (pixel_idx yp xp) rgba_p)"
      using c t r by (rule blend_pixel_tile_ok)
    with True i show ?thesis
      by (simp add: draw_pixel_def Let_def Some)
  next
    case False
    with t show ?thesis
      by (simp add: draw_pixel_def Let_def Some)
  qed
qed

lemma draw_tile_ok:
  assumes d: "dab_ok d" and t: "tile_ok rgba_p"
  shows "\<exists>b'. draw_tile d tx ty rgba_p = Some b' \<and> tile_ok b'"
proof -
  have "\<exists>b'. (case clip_rect xc yc r_fringe of
                 (x0, y0, x1, y1) \<Rightarrow>
                   fold (\<lambda>yp. fold (\<lambda>xp r. Option.bind r (draw_pixel d xc (row_yy yc yp) yp xp))
                                [x0 .. x1]) [y0 .. y1] (Some rgba_p))
              = Some b' \<and> tile_ok b'" for xc yc r_fringe
    using t by (intro tile_loops_invariant draw_pixel_tile_ok [OF d row_yy_nonneg])
  then show ?thesis by (simp add: draw_tile_def Let_def)
qed

lemma get_tile_memory_heap:
  "get_tile_memory P tx ty ro (s, w) = (r, s', w') \<Longrightarrow> heap w' = heap w"
  by (auto simp: get_tile_memory_def Let_def split: option.splits prod.splits if_splits)

lemma draw_tiles_heap_ok:
  "dab_ok d \<Longrightarrow> tile_ok (heap w a)
     \<Longrightarrow> tile_ok (heap (snd (final_state (draw_tiles P d ts (s, w)))) a)"
proof (induction ts arbitrary: s w)
  case Nil
  then show ?case by (simp add: final_state_def)
next
  case (Cons t ts)
  obtain p s1 w1 where g: "get_tile_memory P (fst t) (snd t) False (s, w) = (p, s1, w1)"
    by (metis prod_cases3)
  from get_tile_memory_heap [OF g] Cons.prems(2) have h1: "tile_ok (heap w1 a)" by simp
  show ?case
  proof (cases p)
    case None
    with g h1 show ?thesis by (simp add: final_state_def)
  next
    case (Some rgba_p)
    show ?thesis
    proof (cases "draw_tile d (fst t) (snd t) (heap w1 rgba_p)")
      case None
      with g Some h1 show ?thesis by (simp add: final_state_def)
    next
      case b: (Some b)
      let ?w2 = "w1\<lparr>heap := (heap w1)(rgba_p := b)\<rparr>"
      have "tile_ok b" if "a = rgba_p"
        using draw_tile_ok [OF Cons.prems(1), of "heap w1 rgba_p" "fst t" "snd t"] h1 that b
        by auto
      with h1 have "tile_ok (heap ?w2 a)" by auto
      from Cons.IH [OF Cons.prems(1) this, of s1] g Some b show ?thesis by simp
    qed
  qed
qed

lemma draw_dab_heap_ok:
  assumes "dab_ok d" and "tile_ok (heap w a)"
  shows "tile_ok (heap (snd (final_state (draw_dab P d (s, w)))) a)"
proof -
  let ?t = "draw_tiles P d (tile_range (dab_x d) (dab_y d) (to_float (radius d + 1))) (s, w)"
  from draw_tiles_heap_ok [OF assms] have h: "tile_ok (heap (snd (final_state ?t)) a)" .
  show ?thesis
  proof (cases ?t)
    case (Inl e)
    with h assms(2) show ?thesis by (simp add: draw_dab_def final_state_def Let_def)
  next
    case (Inr v)
    obtain r s' w' where v: "v = (r, s', w')" by (metis prod_cases3)
    with Inr h assms(2) show ?thesis
      by (cases r) (simp_all add: draw_dab_def final_state_def Let_def)
  qed
qed

text \<open>
  C9. For every dab of the data model (nine finite values of type \<open>float\<close>; colours,
  opacity, hardness and eraser alpha in \<open>[0, 1]\<close>; any radius) and every tile buffer \<open>a\<close>
  of the heap whose channels are all at most \<open>2 ^ 15\<close> with no colour channel above alpha,
  the buffer has the same property after \<open>draw_dab\<close>, however the call ends. The opacity
  is computed in single precision, with a rounding after every operation. At every pixel
  that is drawn (\<open>0 \<le> rr \<le> 1\<close>; the \<open>rr\<close> of \<open>draw_pixel\<close> is never negative, and a pixel
  whose \<open>rr\<close> is an infinity or not a number is not drawn) no product or sum of the blend
  reaches \<open>2 ^ 32\<close>.
\<close>

theorem draw_dab_keeps_tiles:
  assumes "dab_ok d" and "tile_ok (heap w a)"
  shows "tile_ok (heap (snd (final_state (draw_dab P d (s, w)))) a)
       \<and> (\<forall>rr rgba_p idx. 0 \<le> rr \<and> rr \<le> 1 \<and> pixel_ok rgba_p idx \<longrightarrow>
            blend_fits (pixel_opa_a d rr) (pixel_opa_b d rr)
              (color15 (color_r d)) (color15 (color_g d)) (color15 (color_b d)) idx rgba_p)"
proof -
  have c: "unat (color15 (color_r d)) \<le> 2 ^ 15" "unat (color15 (color_g d)) \<le> 2 ^ 15"
    "unat (color15 (color_b d)) \<le> 2 ^ 15"
    using dab_ok_colors [OF assms(1)] by blast+
  have 2: "blend_fits (pixel_opa_a d rr) (pixel_opa_b d rr)
              (color15 (color_r d)) (color15 (color_g d)) (color15 (color_b d)) idx rgba_p"
    if "0 \<le> rr" "rr \<le> 1" "pixel_ok rgba_p idx" for rr rgba_p idx
    using pixel_opa_sum [OF assms(1) that(1,2)] c that(3) by (rule blend_pixel_fits)
  from draw_dab_heap_ok [OF assms] 2 show ?thesis by blast
qed

lemma scenario_dab_is_ok: "dab_ok scenario_dab"
  by (simp add: scenario_dab_def dab_ok_def is_float_def finite_float_def to_float_exact
      to_float_0)

theorem draw_dab_keeps_tiles_witness:
  "dab_ok scenario_dab \<and> tile_ok (heap blank_world 0)
   \<and> tile_ok (heap (snd (final_state
         (draw_dab good_python scenario_dab (open_surface, blank_world)))) 0)
   \<and> pixel_ok (\<lambda>i. 0) 0
   \<and> blend_fits (pixel_opa_a scenario_dab (1 / 2)) (pixel_opa_b scenario_dab (1 / 2))
         (color15 (color_r scenario_dab)) (color15 (color_g scenario_dab))
         (color15 (color_b scenario_dab)) 0 (\<lambda>i. 0)"
proof -
  note a = scenario_dab_is_ok
  have b: "tile_ok (heap blank_world 0)"
    by (simp add: blank_world_def tile_ok_def pixel_ok_def)
  have c: "pixel_ok (\<lambda>i. 0) 0"
    by (simp add: pixel_ok_def)
  have d: "(0 :: real) \<le> 1 / 2 \<and> (1 / 2 :: real) \<le> 1 \<and> pixel_ok (\<lambda>i. 0) 0"
    using c by simp
  from draw_dab_keeps_tiles [OF a b, of good_python open_surface] a b c d
  show ?thesis by blast
qed

section \<open>The dirty rectangle of a dab\<close>

lemma tile_range_scenario: "tile_range 100 100 11 = [(1, 1)]"
  by (simp add: tile_range_def TILE_SIZE_def Let_def upto_rec1 to_float_exact to_double_exact
      to_int_def truncate_real_def)

lemma tile_range_edge: "tile_range (127 / 2) (5 / 2) (3 / 2) = [(0, 0), (1, 0)]"
  by (simp add: tile_range_def TILE_SIZE_def Let_def upto_rec1 to_float_exact to_double_exact
      to_int_def truncate_real_def)

lemma get_tile_memory_cold:
  assumes "tileMemoryValid s = 0"
    and "py_get_tile_memory P (py_state w) tx ty False = (Some a, p')"
  shows "get_tile_memory P tx ty False (s, w)
           = (Some a,
              s\<lparr>tileMemoryValid := 1,
                tileMemory := (tileMemory s)
                  (tileMemoryWrite s := \<lparr>tm_tx = tx, tm_ty = ty, tm_rgba_p = a\<rparr>),
                tileMemoryWrite := (tileMemoryWrite s + 1) mod 8\<rparr>,
              w\<lparr>py_state := p', calls := calls w @ [GetTileMemory tx ty False]\<rparr>)"
  using assms by (simp add: get_tile_memory_def TILE_MEMORY_SIZE_def Let_def)

lemma draw_dab_drawn:
  assumes "dab_ok d" "opaque d \<noteq> 0" "\<not> radius d < to_double 0.1" "hardness d \<noteq> 0" "atomic s > 0"
    and "draw_tiles P d (tile_range (dab_x d) (dab_y d) (to_float (radius d + 1))) (s, w)
           = Inr (True, s', w')"
    and "bb_x = to_int (real_of_int \<lfloor>to_float (dab_x d - to_float (radius d + 1))\<rfloor>)"
    and "bb_y = to_int (real_of_int \<lfloor>to_float (dab_y d - to_float (radius d + 1))\<rfloor>)"
    and "bb_w = to_int (real_of_int \<lceil>to_float (2 * to_float (radius d + 1))\<rceil>)"
  shows "draw_dab P d (s, w)
           = Inr (True,
                  s'\<lparr>dirty_bbox :=
                       ExpandRectToIncludePoint
                         (ExpandRectToIncludePoint (dirty_bbox s') bb_x bb_y)
                         (int32 (int32 (bb_x + bb_w) - 1)) (int32 (int32 (bb_y + bb_w) - 1))\<rparr>,
                  w')"
  using assms by (simp add: draw_dab_def dab_ok_def Let_def)

lemma draw_dab_aborted:
  assumes "dab_ok d" "opaque d \<noteq> 0" "\<not> radius d < to_double 0.1" "hardness d \<noteq> 0" "atomic s > 0"
    and "draw_tiles P d (tile_range (dab_x d) (dab_y d) (to_float (radius d + 1))) (s, w)
           = Inr (False, s', w')"
  shows "draw_dab P d (s, w) = Inr (True, s', w')"
  using assms by (simp add: draw_dab_def dab_ok_def Let_def)

lemma get_tile_memory_dirty:
  "get_tile_memory P tx ty ro (s, w) = (r, s', w')
     \<Longrightarrow> dirty_bbox s' = dirty_bbox s \<and> atomic s' = atomic s"
  by (auto simp: get_tile_memory_def Let_def split: option.splits prod.splits if_splits)

lemma draw_tiles_dirty:
  "final_state (draw_tiles P d ts (s, w)) = (s', w')
     \<Longrightarrow> dirty_bbox s' = dirty_bbox s \<and> atomic s' = atomic s"
proof (induction ts arbitrary: s w)
  case Nil
  then show ?case by (simp add: final_state_def)
next
  case (Cons t ts)
  obtain p s1 w1 where g: "get_tile_memory P (fst t) (snd t) False (s, w) = (p, s1, w1)"
    by (metis prod_cases3)
  note k = get_tile_memory_dirty [OF g]
  show ?case
  proof (cases p)
    case None
    with Cons.prems g k show ?thesis by (simp add: final_state_def)
  next
    case (Some rgba_p)
    from draw_tile_in_bounds obtain b where
      b: "draw_tile d (fst t) (snd t) (heap w1 rgba_p) = Some b" by blast
    with Some Cons.prems g
    have "final_state (draw_tiles P d ts (s1, w1\<lparr>heap := (heap w1)(rgba_p := b)\<rparr>)) = (s', w')"
      by simp
    from Cons.IH [OF this] k show ?thesis by simp
  qed
qed

text \<open>
  A dab that passes the guards and whose tiles are all fetched expands the dirty
  rectangle once, after the loop over the tiles, by the two corners of its bounding
  rectangle; the loop itself leaves the dirty rectangle alone.
\<close>

lemma draw_dab_expands_once:
  assumes "dab_ok d" "opaque d \<noteq> 0" "\<not> radius d < to_double 0.1" "hardness d \<noteq> 0" "atomic s > 0"
    and "draw_tiles P d (tile_range (dab_x d) (dab_y d) (to_float (radius d + 1))) (s, w)
           = Inr (True, s', w')"
    and "bb_x = to_int (real_of_int \<lfloor>to_float (dab_x d - to_float (radius d + 1))\<rfloor>)"
    and "bb_y = to_int (real_of_int \<lfloor>to_float (dab_y d - to_float (radius d + 1))\<rfloor>)"
    and "bb_w = to_int (real_of_int \<lceil>to_float (2 * to_float (radius d + 1))\<rceil>)"
  shows "dirty_bbox (fst (final_state (draw_dab P d (s, w))))
           = ExpandRectToIncludePoint
               (ExpandRectToIncludePoint (dirty_bbox s) bb_x bb_y)
               (int32 (int32 (bb_x + bb_w) - 1)) (int32 (int32 (bb_y + bb_w) - 1))"
proof -
  from assms(6) have "final_state (draw_tiles P d
      (tile_range (dab_x d) (dab_y d) (to_float (radius d + 1))) (s, w)) = (s', w')"
    by (simp add: final_state_def)
  from draw_tiles_dirty [OF this] draw_dab_drawn [OF assms] show ?thesis
    by (simp add: final_state_def)
qed

text \<open>
  A dab that passes the guards and meets a failed fetch returns \<open>true\<close> from inside the
  loop: the dirty rectangle is the one from before the call.
\<close>

lemma draw_dab_abort_keeps_dirty:
  assumes "dab_ok d" "opaque d \<noteq> 0" "\<not> radius d < to_double 0.1" "hardness d \<noteq> 0" "atomic s > 0"
    and "draw_tiles P d (tile_range (dab_x d) (dab_y d) (to_float (radius d + 1))) (s, w)
           = Inr (False, s', w')"
  shows "draw_dab P d (s, w) = Inr (True, s', w') \<and> dirty_bbox s' = dirty_bbox s"
proof -
  from assms(6) have "final_state (draw_tiles P d
      (tile_range (dab_x d) (dab_y d) (to_float (radius d + 1))) (s, w)) = (s', w')"
    by (simp add: final_state_def)
  from draw_tiles_dirty [OF this] draw_dab_aborted [OF assms] show ?thesis by simp
qed

lemma to_double_tenth_less: "to_double 0.1 < 1 / 2"
  by (simp add: to_double_tenth)

lemma scenario_dab_ok:
  "dab_ok scenario_dab" "opaque scenario_dab \<noteq> 0" "\<not> radius scenario_dab < to_double 0.1"
  "hardness scenario_dab \<noteq> 0"
  using to_double_tenth_less
  by (simp_all add: scenario_dab_def dab_ok_def is_float_def finite_float_def to_float_exact
      to_float_0)

lemma run_scenario_calls:
  assumes "fst (py_get_tile_memory P (py_state w) 1 1 False) \<noteq> None"
  shows "calls (snd (final_state (run_scenario P (TiledSurface_new g, w))))
           = calls w @ [GetTileMemory 1 1 False, NotifyObservers 89 89 22 22]"
proof -
  obtain a p' where f: "py_get_tile_memory P (py_state w) 1 1 False = (Some a, p')"
    using assms by (cases "py_get_tile_memory P (py_state w) 1 1 False") auto
  define s1 where "s1 = (TiledSurface_new g)\<lparr>atomic := 1\<rparr>"
  define s2 where "s2 = s1\<lparr>tileMemoryValid := 1,
                tileMemory := (tileMemory s1)
                  (tileMemoryWrite s1 := \<lparr>tm_tx = 1, tm_ty = 1, tm_rgba_p = a\<rparr>),
                tileMemoryWrite := (tileMemoryWrite s1 + 1) mod 8\<rparr>"
  define w1 where "w1 = w\<lparr>py_state := p', calls := calls w @ [GetTileMemory 1 1 False]\<rparr>"
  from draw_tile_in_bounds obtain b where
    b: "draw_tile scenario_dab 1 1 (heap w1 a) = Some b" by blast
  define w2 where "w2 = w1\<lparr>heap := (heap w1)(a := b)\<rparr>"
  have b0: "begin_atomic (TiledSurface_new g, w) = Inr ((), s1, w)"
    by (simp add: begin_atomic_def TiledSurface_new_def s1_def)
  have v: "tileMemoryValid s1 = 0" "atomic s1 > 0"
    by (simp_all add: s1_def TiledSurface_new_def)
  have rf: "to_float (radius scenario_dab + 1) = 11"
    by (simp add: scenario_dab_def to_float_exact)
  have t: "draw_tiles P scenario_dab
             (tile_range (dab_x scenario_dab) (dab_y scenario_dab)
                (to_float (radius scenario_dab + 1)))
             (s1, w) = Inr (True, s2, w2)"
    using b
    by (simp add: rf, simp add: scenario_dab_def tile_range_scenario
        get_tile_memory_cold [OF v(1) f] s2_def w1_def w2_def)
  have bb: "89 = to_int (real_of_int
                   \<lfloor>to_float (dab_x scenario_dab - to_float (radius scenario_dab + 1))\<rfloor>)"
    "89 = to_int (real_of_int
                   \<lfloor>to_float (dab_y scenario_dab - to_float (radius scenario_dab + 1))\<rfloor>)"
    "22 = to_int (real_of_int \<lceil>to_float (2 * to_float (radius scenario_dab + 1))\<rceil>)"
    by (simp_all add: rf, simp_all add: scenario_dab_def to_float_exact to_int_def
        truncate_real_def)
  have e: "ExpandRectToIncludePoint (ExpandRectToIncludePoint (dirty_bbox s2) 89 89)
             (int32 (int32 (89 + 22) - 1)) (int32 (int32 (89 + 22) - 1))
             = \<lparr>rect_x = 89, rect_y = 89, rect_w = 22, rect_h = 22\<rparr>"
    by (simp add: ExpandRectToIncludePoint_def s2_def s1_def TiledSurface_new_def int32_def)
  have d: "draw_dab P scenario_dab (s1, w)
             = Inr (True, s2\<lparr>dirty_bbox := \<lparr>rect_x = 89, rect_y = 89, rect_w = 22, rect_h = 22\<rparr>\<rparr>, w2)"
    using draw_dab_drawn [OF scenario_dab_ok v(2) t bb] e by simp
  have c: "calls w2 = calls w @ [GetTileMemory 1 1 False]"
    by (simp add: w2_def w1_def)
  have a1: "atomic s2 = 1"
    by (simp add: s2_def s1_def)
  show ?thesis
    by (simp add: run_scenario_def b0 d end_atomic_def a1 c final_state_def Let_def
        split: prod.splits)
qed

lemma scenario_rect_contains:
  "rect_contains \<lparr>rect_x = 89, rect_y = 89, rect_w = 22, rect_h = 22\<rparr> px py
     \<longleftrightarrow> 89 \<le> px \<and> px \<le> 110 \<and> 89 \<le> py \<and> py \<le> 110"
  by (auto simp: rect_contains_def)

text \<open>
  C1, as the code has it. Begin a batch on a fresh surface, draw the dab at
  \<open>(100, 100)\<close> with radius 10, colour \<open>(1, 0, 0)\<close>, opacity 1 and hardness 0.5, close the
  batch. When the store serves the one tile fetched, \<open>notify_observers\<close> is called exactly
  once, with the rectangle \<open>x = 89, y = 89, w = 22, h = 22\<close>, which contains every pixel
  from \<open>(89, 89)\<close> to \<open>(110, 110)\<close>.
\<close>

theorem scenario_one_notification:
  assumes "fst (py_get_tile_memory P (py_state w) 1 1 False) \<noteq> None"
  shows "calls (snd (final_state (run_scenario P (TiledSurface_new g, w))))
           = calls w @ [GetTileMemory 1 1 False, NotifyObservers 89 89 22 22]
       \<and> (\<forall>px py. 89 \<le> px \<and> px \<le> 110 \<and> 89 \<le> py \<and> py \<le> 110 \<longrightarrow>
            rect_contains \<lparr>rect_x = 89, rect_y = 89, rect_w = 22, rect_h = 22\<rparr> px py)"
  using run_scenario_calls [OF assms] by (simp add: scenario_rect_contains)

lemma good_python_serves: "fst (py_get_tile_memory good_python (py_state blank_world) 1 1 False) \<noteq> None"
  by (simp add: good_python_def)

theorem scenario_one_notification_witness:
  "fst (py_get_tile_memory good_python (py_state blank_world) 1 1 False) \<noteq> None
   \<and> calls (snd (final_state (run_scenario good_python (TiledSurface_new blank_surface, blank_world))))
       = [GetTileMemory 1 1 False, NotifyObservers 89 89 22 22]
   \<and> rect_contains \<lparr>rect_x = 89, rect_y = 89, rect_w = 22, rect_h = 22\<rparr> 110 110"
  using scenario_one_notification [OF good_python_serves, of blank_surface] good_python_serves
  by (simp add: blank_world_def)

text \<open>
  The rectangle of that one notification ends at column and row 110: the pixel
  \<open>(111, 111)\<close> is outside.
\<close>

theorem scenario_rect_counterexample:
  "calls (snd (final_state (run_scenario good_python (TiledSurface_new blank_surface, blank_world))))
       = [GetTileMemory 1 1 False, NotifyObservers 89 89 22 22]
   \<and> \<not> rect_contains \<lparr>rect_x = 89, rect_y = 89, rect_w = 22, rect_h = 22\<rparr> 111 111"
  using run_scenario_calls [OF good_python_serves, of blank_surface]
  by (simp add: blank_world_def scenario_rect_contains)

lemma clip_rect_edge: "clip_rect (127 / 2) (5 / 2) (3 / 2) = (62, 1, 63, 4)"
  by (simp add: clip_rect_def TILE_SIZE_def Let_def to_float_exact to_int_def truncate_real_def)

lemma row_yy_edge:
  "row_yy (5 / 2) 1 = 1" "row_yy (5 / 2) 2 = 0" "row_yy (5 / 2) 3 = 1" "row_yy (5 / 2) 4 = 4"
  by (simp_all add: row_yy_def Let_def to_float_exact to_double_exact to_float_0 to_double_0)

lemma pixel_rr_edge:
  "pixel_rr (1 / 2) (127 / 2) 1 62 = Some 8" "pixel_rr (1 / 2) (127 / 2) 1 63 = Some 4"
  "pixel_rr (1 / 2) (127 / 2) 0 62 = Some 4" "pixel_rr (1 / 2) (127 / 2) 0 63 = Some 0"
  "pixel_rr (1 / 2) (127 / 2) 4 62 = Some 20" "pixel_rr (1 / 2) (127 / 2) 4 63 = Some 16"
  by (simp_all add: pixel_rr_def Let_def finite_float_def to_float_exact to_double_exact
      to_float_0 to_double_0)

lemma pixel_opa_edge: "pixel_opa_a edge_dab 0 = 2 ^ 15" "pixel_opa_b edge_dab 0 = 0"
  "color15 (color_r edge_dab) = 2 ^ 15"
  by (simp_all add: pixel_opa_a_def pixel_opa_b_def color15_def edge_dab_def dab_opa_def
      to_float_exact to_float_0 to_uint32_def truncate_real_def)

lemma draw_tile_edge:
  "\<exists>b. draw_tile edge_dab 0 0 (\<lambda>i. 0) = Some b \<and> b 767 = 2 ^ 15"
proof -
  have c: "to_float (radius edge_dab + 1) = 3 / 2"
    "to_float (dab_x edge_dab - to_float (real_of_int (int32 (0 * TILE_SIZE)))) = 127 / 2"
    "to_float (dab_y edge_dab - to_float (real_of_int (int32 (0 * TILE_SIZE)))) = 5 / 2"
    by (simp_all add: edge_dab_def int32_def to_float_exact to_float_0)
  have r: "radius edge_dab = 1 / 2" by (simp add: edge_dab_def)
  show ?thesis
    by (simp only: draw_tile_def Let_def c clip_rect_edge prod.case)
      (simp add: Let_def upto_rec1 row_yy_edge draw_pixel_def r pixel_rr_edge pixel_opa_edge
        pixel_idx_def TILE_SIZE_def in_tile_def blend_pixel_def)
qed

lemma edge_dab_ok:
  "dab_ok edge_dab" "opaque edge_dab \<noteq> 0" "\<not> radius edge_dab < to_double 0.1"
  "hardness edge_dab \<noteq> 0"
  using to_double_tenth_less
  by (simp_all add: edge_dab_def dab_ok_def is_float_def finite_float_def to_float_exact
      to_float_0)

text \<open>
  C5 at a dab whose second tile fetch fails. The first tile has been drawn into (its
  alpha at pixel \<open>(63, 2)\<close> goes from 0 to \<open>2 ^ 15\<close>), \<open>draw_dab\<close> returns \<open>true\<close>, and
  the dirty rectangle is still empty: closing the batch notifies nobody.
\<close>

theorem draw_dab_abort_skips_dirty:
  "(case draw_dab flaky_python edge_dab (open_surface\<lparr>dirty_bbox := dirty_bbox blank_surface\<rparr>, blank_world) of
      Inl e \<Rightarrow> False
    | Inr (modified, s', w') \<Rightarrow>
        modified \<and> heap blank_world 0 767 = 0 \<and> heap w' 0 767 = 2 ^ 15
        \<and> rect_w (dirty_bbox s') = 0
        \<and> calls (snd (final_state (end_atomic flaky_python (s', w'))))
            = [GetTileMemory 0 0 False, GetTileMemory 1 0 False])"
proof -
  define s1 where "s1 = open_surface\<lparr>dirty_bbox := dirty_bbox blank_surface\<rparr>"
  define s2 where "s2 = s1\<lparr>tileMemoryValid := 1,
                tileMemory := (tileMemory s1)
                  (tileMemoryWrite s1 := \<lparr>tm_tx = 0, tm_ty = 0, tm_rgba_p = 0\<rparr>),
                tileMemoryWrite := (tileMemoryWrite s1 + 1) mod 8\<rparr>"
  define w1 where "w1 = blank_world\<lparr>py_state := (), calls := calls blank_world @ [GetTileMemory 0 0 False]\<rparr>"
  from draw_tile_edge obtain b where
    b: "draw_tile edge_dab 0 0 (\<lambda>i. 0) = Some b" "b 767 = 2 ^ 15" by blast
  define w2 where "w2 = w1\<lparr>heap := (heap w1)(0 := b)\<rparr>"
  define w3 where "w3 = w2\<lparr>py_state := (), calls := calls w2 @ [GetTileMemory 1 0 False]\<rparr>"
  have v: "tileMemoryValid s1 = 0" "atomic s1 > 0" "tileMemoryWrite s1 = 0"
    by (simp_all add: s1_def open_surface_def nested_surface_def blank_surface_def
        TiledSurface_new_def)
  have f: "py_get_tile_memory flaky_python (py_state blank_world) 0 0 False = (Some 0, ())"
    by (simp add: flaky_python_def)
  have g1: "get_tile_memory flaky_python 0 0 False (s1, blank_world) = (Some 0, s2, w1)"
    by (simp only: get_tile_memory_cold [OF v(1) f] s2_def w1_def)
  have g2: "get_tile_memory flaky_python 1 0 False (s2, w)
              = (None, s2, w\<lparr>py_state := (), calls := calls w @ [GetTileMemory 1 0 False]\<rparr>)" for w
    by (simp add: get_tile_memory_def s2_def v flaky_python_def Let_def)
  have h1: "heap w1 0 = (\<lambda>i. 0)"
    by (simp add: w1_def blank_world_def)
  have t0: "draw_tiles flaky_python edge_dab [(0, 0), (1, 0)] (s1, blank_world)
              = Inr (False, s2, w3)"
    by (simp add: g1 h1 b(1) g2 w3_def w2_def)
  have tr: "tile_range (dab_x edge_dab) (dab_y edge_dab) (to_float (radius edge_dab + 1))
              = [(0, 0), (1, 0)]"
    by (simp add: edge_dab_def to_float_exact tile_range_edge)
  have t: "draw_tiles flaky_python edge_dab
             (tile_range (dab_x edge_dab) (dab_y edge_dab) (to_float (radius edge_dab + 1)))
             (s1, blank_world) = Inr (False, s2, w3)"
    by (simp only: tr t0)
  have d: "draw_dab flaky_python edge_dab (s1, blank_world) = Inr (True, s2, w3)"
    by (rule draw_dab_aborted [OF edge_dab_ok v(2) t])
  have h0: "heap blank_world 0 767 = 0"
    by (simp add: blank_world_def)
  have h: "heap w3 0 767 = 2 ^ 15"
    using b(2) by (simp add: w3_def w2_def)
  have bb: "rect_w (dirty_bbox s2) = 0" "atomic s2 = 1"
    by (simp_all add: s2_def s1_def blank_surface_def TiledSurface_new_def open_surface_def)
  have c: "calls w3 = [GetTileMemory 0 0 False, GetTileMemory 1 0 False]"
    by (simp add: w3_def w2_def w1_def blank_world_def)
  have e: "calls (snd (final_state (end_atomic flaky_python (s2, w3))))
            = [GetTileMemory 0 0 False, GetTileMemory 1 0 False]"
    by (simp add: end_atomic_def bb c final_state_def Let_def)
  show ?thesis
    unfolding s1_def [symmetric] d using h0 h bb(1) e by simp
qed

end
